theory Spec2Isabelle
  imports Complex_Main
begin

section \<open>Floating-point values\<close>

text \<open>
  The encoder computes with float64 values inside pandas Series. They are modelled as
  the real numbers extended with the two infinities and NaN; rounding is not modelled
  (every finite operation is exact), and the sign of zero is not modelled (a division
  by zero takes the sign of the numerator, as for a positive zero).
\<close>

datatype fl = Fin real | PInf | NInf | NaN

fun fneg :: "fl \<Rightarrow> fl" where
  "fneg (Fin a) = Fin (- a)"
| "fneg PInf = NInf"
| "fneg NInf = PInf"
| "fneg NaN = NaN"

fun fadd :: "fl \<Rightarrow> fl \<Rightarrow> fl" where
  "fadd (Fin a) (Fin b) = Fin (a + b)"
| "fadd NaN _ = NaN"
| "fadd _ NaN = NaN"
| "fadd PInf NInf = NaN"
| "fadd NInf PInf = NaN"
| "fadd PInf _ = PInf"
| "fadd _ PInf = PInf"
| "fadd NInf _ = NInf"
| "fadd _ NInf = NInf"

definition fsub :: "fl \<Rightarrow> fl \<Rightarrow> fl" where
  "fsub a b = fadd a (fneg b)"

text \<open>The sign of a float: \<open>None\<close> for NaN, otherwise \<open>-1\<close>, \<open>0\<close> or \<open>1\<close>.\<close>

fun fsgn :: "fl \<Rightarrow> int option" where
  "fsgn (Fin a) = Some (if a < 0 then - 1 else if a = 0 then 0 else 1)"
| "fsgn PInf = Some 1"
| "fsgn NInf = Some (- 1)"
| "fsgn NaN = None"

definition inf_of_sign :: "int \<Rightarrow> fl" where
  "inf_of_sign s = (if s < 0 then NInf else if s = 0 then NaN else PInf)"

fun fmul :: "fl \<Rightarrow> fl \<Rightarrow> fl" where
  "fmul (Fin a) (Fin b) = Fin (a * b)"
| "fmul a b =
     (case (fsgn a, fsgn b) of
        (Some s, Some t) \<Rightarrow> inf_of_sign (s * t)
      | _ \<Rightarrow> NaN)"

fun fdiv :: "fl \<Rightarrow> fl \<Rightarrow> fl" where
  "fdiv (Fin a) (Fin b) =
     (if b = 0 then inf_of_sign (if a < 0 then - 1 else if a = 0 then 0 else 1)
      else Fin (a / b))"
| "fdiv NaN _ = NaN"
| "fdiv _ NaN = NaN"
| "fdiv (Fin a) _ = Fin 0"
| "fdiv a (Fin b) = (case fsgn a of Some s \<Rightarrow> inf_of_sign (if b < 0 then - s else s) | None \<Rightarrow> NaN)"
| "fdiv _ _ = NaN"

text \<open>\<open>np.log\<close>: minus infinity at zero, NaN below zero.\<close>

fun flog :: "fl \<Rightarrow> fl" where
  "flog (Fin a) = (if a < 0 then NaN else if a = 0 then NInf else Fin (ln a))"
| "flog PInf = PInf"
| "flog NInf = NaN"
| "flog NaN = NaN"

text \<open>Comparisons: every comparison with NaN is false.\<close>

fun fle :: "fl \<Rightarrow> fl \<Rightarrow> bool" where
  "fle NaN _ = False"
| "fle _ NaN = False"
| "fle (Fin a) (Fin b) = (a \<le> b)"
| "fle NInf _ = True"
| "fle _ PInf = True"
| "fle _ _ = False"

fun flt :: "fl \<Rightarrow> fl \<Rightarrow> bool" where
  "flt NaN _ = False"
| "flt _ NaN = False"
| "flt (Fin a) (Fin b) = (a < b)"
| "flt PInf _ = False"
| "flt _ NInf = False"
| "flt _ _ = True"

section \<open>Table cells, columns and Series\<close>

text \<open>
  A cell of the input table holds a hashable category value or a float; a missing cell
  is the float NaN. A table maps column names to columns. A Series of floats indexed
  by category (the result of \<open>value_counts\<close> and of the arithmetic on it) is an
  association list with distinct keys. The order of a Series index is not modelled:
  no operation of the encoder depends on it.
\<close>

datatype 'a val = Cat 'a | Flt fl

definition isna :: "'a val \<Rightarrow> bool" where
  "isna v = (v = Flt NaN)"

type_synonym 'a column = "'a val list"
type_synonym 'a table = "string \<rightharpoonup> 'a column"
type_synonym 'a series = "('a val \<times> fl) list"

datatype py_error = AssertionError | KeyError | ValueError

definition exception_name :: "py_error \<Rightarrow> string" where
  "exception_name e =
     (case e of AssertionError \<Rightarrow> ''AssertionError''
      | KeyError \<Rightarrow> ''KeyError''
      | ValueError \<Rightarrow> ''ValueError'')"

text \<open>\<open>Series.value_counts()\<close>: one entry for each distinct value, with its count.\<close>

definition value_counts :: "'k list \<Rightarrow> ('k \<times> nat) list" where
  "value_counts xs = map (\<lambda>v. (v, count_list xs v)) (remdups xs)"

text \<open>\<open>s[k]\<close> on a Series indexed by labels: KeyError when the label is absent.\<close>

definition getitem :: "('k \<times> 'v) list \<Rightarrow> 'k \<Rightarrow> py_error + 'v" where
  "getitem s k = (case map_of s k of None \<Rightarrow> Inl KeyError | Some v \<Rightarrow> Inr v)"

text \<open>
  \<open>X_temp.groupby("target")["feat"].value_counts()[k]\<close>: the counts of the categories
  among the rows whose target is \<open>k\<close>. \<open>value_counts\<close> of a group drops the missing
  cells (\<open>dropna=True\<close> is the default), and selecting a target value with no entry
  raises KeyError.
\<close>

definition group_values :: "('a val \<times> int) list \<Rightarrow> int \<Rightarrow> 'a val list" where
  "group_values X_temp k = filter (\<lambda>c. \<not> isna c) (map fst (filter (\<lambda>r. snd r = k) X_temp))"

definition groupby_value_counts :: "('a val \<times> int) list \<Rightarrow> int \<Rightarrow> py_error + ('a val \<times> nat) list" where
  "groupby_value_counts X_temp k =
     (let vc = value_counts (group_values X_temp k)
      in if vc = [] then Inl KeyError else Inr vc)"

text \<open>A Series of counts divided by a scalar count (true division).\<close>

definition div_scalar :: "('a val \<times> nat) list \<Rightarrow> nat \<Rightarrow> 'a series" where
  "div_scalar s n = map (\<lambda>(c, m). (c, fdiv (Fin (real m)) (Fin (real n)))) s"

text \<open>
  A binary operation on two Series aligns them on the union of their indexes; a label
  missing from either operand gives NaN.
\<close>

definition align_op :: "(fl \<Rightarrow> fl \<Rightarrow> fl) \<Rightarrow> 'a series \<Rightarrow> 'a series \<Rightarrow> 'a series" where
  "align_op f a b =
     map (\<lambda>k. (k, case (map_of a k, map_of b k) of
                     (Some u, Some v) \<Rightarrow> f u v
                   | _ \<Rightarrow> NaN))
         (remdups (map fst a @ map fst b))"

definition series_log :: "'a series \<Rightarrow> 'a series" where
  "series_log s = map (\<lambda>(k, v). (k, flog v)) s"

definition series_fillna :: "fl \<Rightarrow> 'a series \<Rightarrow> 'a series" where
  "series_fillna d s = map (\<lambda>(k, v). (k, if v = NaN then d else v)) s"

text \<open>\<open>Series.sum()\<close>: NaN entries are skipped (\<open>skipna=True\<close> is the default).\<close>

definition series_sum :: "'a series \<Rightarrow> fl" where
  "series_sum s = foldl fadd (Fin 0) (filter (\<lambda>v. v \<noteq> NaN) (map snd s))"

definition to_dict :: "'a series \<Rightarrow> ('a val \<rightharpoonup> fl)" where
  "to_dict s = map_of s"

text \<open>
  \<open>Series.map(d, na_action=...)\<close> with a dict \<open>d\<close>. The argument \<open>na_action\<close> must be
  \<open>None\<close> or the string \<open>'ignore'\<close>; any other value raises ValueError before a row
  is mapped. The encoder passes its \<open>fillna\<close> setting, which is \<open>None\<close> or a float, so
  a float raises. Otherwise every value is looked up in the dict, and a value that is no
  key of the dict maps to NaN.
\<close>

definition lookup_values :: "('a val \<rightharpoonup> fl) \<Rightarrow> 'a column \<Rightarrow> 'a column" where
  "lookup_values d col = map (\<lambda>v. case d v of None \<Rightarrow> Flt NaN | Some w \<Rightarrow> Flt w) col"

definition series_map :: "('a val \<rightharpoonup> fl) \<Rightarrow> fl option \<Rightarrow> 'a column \<Rightarrow> py_error + 'a column" where
  "series_map d na_action col =
     (case na_action of
        Some v \<Rightarrow> Inl ValueError
      | None \<Rightarrow> Inr (lookup_values d col))"

section \<open>The proportion estimator\<close>

text \<open>
  \<open>__calc_perc(x, y)\<close>. Building the frame from two arrays of different lengths raises
  ValueError. Events are the rows with target 1, non-events the rows with target 0.
\<close>

definition calc_perc :: "'a column \<Rightarrow> int list \<Rightarrow> py_error + ('a series \<times> 'a series)" where
  "calc_perc x y =
     (if length x \<noteq> length y then Inl ValueError
      else
        let X_temp = zip x y;
            n_event = value_counts y
        in case groupby_value_counts X_temp 1 of Inl e \<Rightarrow> Inl e | Inr ev \<Rightarrow>
           (case getitem n_event 1 of Inl e \<Rightarrow> Inl e | Inr n1 \<Rightarrow>
           (case groupby_value_counts X_temp 0 of Inl e \<Rightarrow> Inl e | Inr nev \<Rightarrow>
           (case getitem n_event 0 of Inl e \<Rightarrow> Inl e | Inr n0 \<Rightarrow>
              Inr (div_scalar ev n1, div_scalar nev n0)))))"

section \<open>The encoder\<close>

record 'a encoder =
  feats :: "string list"
  drop_original :: bool
  fillna :: "fl option"
  prefix :: string
  suffix :: string
  transform_woe :: "string \<rightharpoonup> ('a val \<rightharpoonup> fl)"
  transform_iv :: "string \<rightharpoonup> 'a series"
  is_fitted :: bool

text \<open>\<open>__init__\<close>; \<open>transform_dict\<close> is the pair of fields \<open>transform_woe\<close>, \<open>transform_iv\<close>.\<close>

definition init :: "string list \<Rightarrow> bool \<Rightarrow> fl option \<Rightarrow> string \<Rightarrow> string \<Rightarrow> 'a encoder" where
  "init fs d fna p s =
     \<lparr>feats = fs, drop_original = d, fillna = fna, prefix = p, suffix = s,
      transform_woe = Map.empty, transform_iv = Map.empty, is_fitted = False\<rparr>"

text \<open>The weight of evidence and the information value of one feature (the body of the loop of \<open>fit\<close>).\<close>

definition woe_of :: "'a series \<Rightarrow> 'a series \<Rightarrow> 'a series" where
  "woe_of p_event p_non_event = series_fillna (Fin 0) (series_log (align_op fdiv p_non_event p_event))"

definition iv_of :: "fl option \<Rightarrow> 'a series \<Rightarrow> 'a series \<Rightarrow> 'a series" where
  "iv_of fna p_event p_non_event =
     (let information_value = align_op fmul (align_op fsub p_non_event p_event) (woe_of p_event p_non_event)
      in case fna of None \<Rightarrow> information_value | Some d \<Rightarrow> series_fillna d information_value)"

text \<open>
  \<open>fit(X, y)\<close>. The encoder is mutated in place, so the model returns the encoder as the
  call leaves it together with the exception raised, if any.
\<close>

fun fit_loop :: "string list \<Rightarrow> 'a table \<Rightarrow> int list \<Rightarrow> 'a encoder \<Rightarrow> 'a encoder \<times> py_error option" where
  "fit_loop [] X y enc = (enc, None)"
| "fit_loop (feat # fs) X y enc =
     (case X feat of None \<Rightarrow> (enc, Some KeyError) | Some x \<Rightarrow>
      (case calc_perc x y of Inl e \<Rightarrow> (enc, Some e) | Inr (p_event, p_non_event) \<Rightarrow>
         fit_loop fs X y
           (enc\<lparr>transform_woe := (transform_woe enc)(feat \<mapsto> to_dict (woe_of p_event p_non_event)),
                transform_iv := (transform_iv enc)(feat \<mapsto> iv_of (fillna enc) p_event p_non_event)\<rparr>)))"

definition fit :: "'a encoder \<Rightarrow> 'a table \<Rightarrow> int list \<Rightarrow> 'a encoder \<times> py_error option" where
  "fit enc X y =
     (case fit_loop (feats enc) X y enc of
        (enc', None) \<Rightarrow> (enc'\<lparr>is_fitted := True\<rparr>, None)
      | (enc', Some e) \<Rightarrow> (enc', Some e))"

text \<open>
  \<open>transofrm(X)\<close> (the source's spelling). For each feature the column and the fitted
  dict are looked up (KeyError when either is absent), then \<open>Series.map\<close> is called with
  \<open>na_action=self.fillna\<close> (ValueError when a fill value is configured). The new column
  replaces a column of the same name; the original column is dropped only when
  \<open>drop_original\<close> is set and \<open>prefix + suffix\<close> is not empty.
\<close>

fun transofrm_loop :: "'a encoder \<Rightarrow> string list \<Rightarrow> 'a table \<Rightarrow> py_error + 'a table" where
  "transofrm_loop enc [] X = Inr X"
| "transofrm_loop enc (feat # fs) X =
     (let new_col_name = prefix enc @ feat @ suffix enc in
      case X feat of None \<Rightarrow> Inl KeyError | Some col \<Rightarrow>
      (case transform_woe enc feat of None \<Rightarrow> Inl KeyError | Some d \<Rightarrow>
      (case series_map d (fillna enc) col of Inl e \<Rightarrow> Inl e | Inr new_col \<Rightarrow>
         let X1 = X(new_col_name \<mapsto> new_col);
             X2 = (if drop_original enc \<and> prefix enc @ suffix enc \<noteq> [] then X1(feat := None) else X1)
         in transofrm_loop enc fs X2)))"

definition transofrm :: "'a encoder \<Rightarrow> 'a table \<Rightarrow> py_error + 'a table" where
  "transofrm enc X = (if \<not> is_fitted enc then Inl AssertionError else transofrm_loop enc (feats enc) X)"

text \<open>\<open>__add_description\<close>: the bands are tried in the order of the dict literal.\<close>

definition predictive_power :: "((fl \<times> fl) \<times> string) list" where
  "predictive_power =
     [((Fin 0, Fin 0.02), ''Not useful for prediction''),
      ((Fin 0.02, Fin 0.1), ''Weak predictive power''),
      ((Fin 0.1, Fin 0.3), ''Medium predictive power''),
      ((Fin 0.3, Fin 0.5), ''Strong predictive power''),
      ((Fin 0.5, PInf), ''Too good to be true!'')]"

fun add_description_loop :: "((fl \<times> fl) \<times> string) list \<Rightarrow> fl \<Rightarrow> string" where
  "add_description_loop [] information_value = ''Too good to be true!''"
| "add_description_loop ((bounds, desc) # rest) information_value =
     (if fle (fst bounds) information_value \<and> flt information_value (snd bounds) then desc
      else add_description_loop rest information_value)"

definition add_description :: "fl \<Rightarrow> string" where
  "add_description information_value = add_description_loop predictive_power information_value"

text \<open>
  \<open>information_values(add_description)\<close>: one row for each configured feature, holding
  the feature's name, its information value and, when asked for, the description.
\<close>

fun information_values_loop :: "'a encoder \<Rightarrow> string list \<Rightarrow> py_error + (string \<times> fl) list" where
  "information_values_loop enc [] = Inr []"
| "information_values_loop enc (feat # fs) =
     (case transform_iv enc feat of None \<Rightarrow> Inl KeyError | Some s \<Rightarrow>
      (case information_values_loop enc fs of Inl e \<Rightarrow> Inl e
       | Inr rows \<Rightarrow> Inr ((feat, series_sum s) # rows)))"

definition information_values :: "'a encoder \<Rightarrow> bool \<Rightarrow> py_error + (string \<times> fl \<times> string option) list" where
  "information_values enc add_desc =
     (if \<not> is_fitted enc then Inl AssertionError
      else case information_values_loop enc (feats enc) of Inl e \<Rightarrow> Inl e
           | Inr rows \<Rightarrow>
               Inr (map (\<lambda>(feat, v). (feat, v, if add_desc then Some (add_description v) else None)) rows))"

section \<open>The end-to-end example\<close>

text \<open>
  The feature \<open>city\<close> with the rows A, A, A, B, B and the target 1, 1, 0, 0, 0; the
  encoder with its default settings.
\<close>

definition example_city :: "string column" where
  "example_city = [Cat ''A'', Cat ''A'', Cat ''A'', Cat ''B'', Cat ''B'']"

definition example_X :: "string table" where
  "example_X = [''city'' \<mapsto> example_city]"

definition example_y :: "int list" where
  "example_y = [1, 1, 0, 0, 0]"

definition example_encoder :: "string encoder" where
  "example_encoder = init [''city''] False None ''woe_'' ''''"

text \<open>The same encoder with the fill value 0 for undefined information values.\<close>

definition example_encoder_fill0 :: "string encoder" where
  "example_encoder_fill0 = init [''city''] False (Some (Fin 0)) ''woe_'' ''''"

text \<open>
  The sum of a list of floats as plain floating-point addition, in which an undefined
  (NaN) summand makes the sum undefined. This is the reading of "the sum of the
  per-category contributions" against which \<open>Series.sum()\<close> is compared.
\<close>

definition nan_propagating_sum :: "fl list \<Rightarrow> fl" where
  "nan_propagating_sum vs = foldl fadd (Fin 0) vs"

text \<open>A feature column with a missing cell in an event row, and its target.\<close>

definition example_city_missing :: "string column" where
  "example_city_missing = [Cat ''A'', Flt NaN, Cat ''A'']"

definition example_y_missing :: "int list" where
  "example_y_missing = [1, 1, 0]"

text \<open>The encoder that is asked to drop the original column while prefix and suffix are empty.\<close>

definition example_encoder_in_place :: "string encoder" where
  "example_encoder_in_place = init [''city''] True None '''' ''''"

text \<open>A table to transform whose second row holds a category that the fit has not seen.\<close>

definition example_X_unseen :: "string table" where
  "example_X_unseen = [''city'' \<mapsto> [Cat ''A'', Cat ''C'']]"

text \<open>
  An encoder with two features of which the second, \<open>woe_a\<close>, has the name of the first
  one's new column; the table it is fitted on, and a table to transform with an unseen
  category in the second row.
\<close>

definition example_encoder_collision :: "string encoder" where
  "example_encoder_collision = init [''a'', ''woe_a''] True None ''woe_'' ''''"

definition example_X_collision :: "string table" where
  "example_X_collision = [''a'' \<mapsto> example_city, ''woe_a'' \<mapsto> example_city]"

definition example_X_collision_unseen :: "string table" where
  "example_X_collision_unseen = [''a'' \<mapsto> [Cat ''A'', Cat ''C''], ''woe_a'' \<mapsto> [Cat ''A'', Cat ''C'']]"

section \<open>Lookups in the Series operations\<close>

lemma map_of_graph: "map_of (map (\<lambda>k. (k, g k)) ks) k = (if k \<in> set ks then Some (g k) else None)"
  by (induction ks) auto

lemma map_of_map_values: "map_of (map (\<lambda>(k, v). (k, h v)) s) k = map_option h (map_of s k)"
  by (induction s) auto

lemma map_of_value_counts:
  "map_of (value_counts xs) k = (if k \<in> set xs then Some (count_list xs k) else None)"
  by (simp add: value_counts_def map_of_graph)

lemma map_of_div_scalar:
  "map_of (div_scalar s n) k = map_option (\<lambda>m. fdiv (Fin (real m)) (Fin (real n))) (map_of s k)"
  by (simp add: div_scalar_def map_of_map_values)

lemma map_of_align_op:
  "map_of (align_op f a b) k =
     (if map_of a k = None \<and> map_of b k = None then None
      else Some (case (map_of a k, map_of b k) of (Some u, Some v) \<Rightarrow> f u v | _ \<Rightarrow> NaN))"
  by (auto simp: align_op_def map_of_graph map_of_eq_None_iff)

lemma map_of_series_log: "map_of (series_log s) k = map_option flog (map_of s k)"
  by (simp add: series_log_def map_of_map_values)

lemma map_of_series_fillna:
  "map_of (series_fillna d s) k = map_option (\<lambda>v. if v = NaN then d else v) (map_of s k)"
  by (simp add: series_fillna_def map_of_map_values)

lemma length_filter_zip_snd:
  "length x = length y \<Longrightarrow> length (filter (\<lambda>r. snd r = k) (zip x y)) = count_list y k"
  by (induction x y rule: list_induct2) auto

lemma count_list_le_length: "count_list xs c \<le> length xs"
  by (induction xs) auto

lemma count_group_values_le:
  "length x = length y \<Longrightarrow> count_list (group_values (zip x y) k) c \<le> count_list y k"
proof -
  assume len: "length x = length y"
  have "count_list (group_values (zip x y) k) c \<le> length (group_values (zip x y) k)"
    by (rule count_list_le_length)
  also have "\<dots> \<le> length (map fst (filter (\<lambda>r. snd r = k) (zip x y)))"
    unfolding group_values_def by (rule length_filter_le)
  also have "\<dots> = count_list y k"
    using len by (simp add: length_filter_zip_snd)
  finally show ?thesis .
qed

lemma getitem_value_counts:
  "getitem (value_counts y) k = Inr n \<Longrightarrow> n = count_list y k \<and> k \<in> set y"
  by (auto simp: getitem_def map_of_value_counts split: if_splits)

lemma value_counts_Nil: "value_counts xs = [] \<longleftrightarrow> xs = []"
  by (simp add: value_counts_def)

lemma calc_perc_Inr:
  assumes "calc_perc x y = Inr (p_event, p_non_event)"
  shows "length x = length y"
    and "p_event = div_scalar (value_counts (group_values (zip x y) 1)) (count_list y 1)"
    and "p_non_event = div_scalar (value_counts (group_values (zip x y) 0)) (count_list y 0)"
    and "1 \<in> set y" and "0 \<in> set y"
    and "group_values (zip x y) 1 \<noteq> []" and "group_values (zip x y) 0 \<noteq> []"
  using assms
  by (auto simp: calc_perc_def Let_def groupby_value_counts_def value_counts_Nil
      dest!: getitem_value_counts split: if_splits sum.splits)

lemma count_list_pos: "c \<in> set xs \<Longrightarrow> 0 < count_list xs c"
  using count_list_0_iff [of xs c] by (cases "count_list xs c = 0") auto

lemma proportion_value:
  assumes "length x = length y" and "k \<in> set y"
  shows "map_of (div_scalar (value_counts (group_values (zip x y) k)) (count_list y k)) c =
     (if c \<in> set (group_values (zip x y) k)
      then Some (Fin (real (count_list (group_values (zip x y) k) c) / real (count_list y k)))
      else None)"
proof -
  have "count_list y k \<noteq> 0" using assms(2) by (simp add: count_list_0_iff)
  then show ?thesis by (simp add: map_of_div_scalar map_of_value_counts)
qed

lemma proportion_range:
  assumes "length x = length y" and "k \<in> set y" and "c \<in> set (group_values (zip x y) k)"
  shows "0 < real (count_list (group_values (zip x y) k) c) / real (count_list y k)"
    and "real (count_list (group_values (zip x y) k) c) / real (count_list y k) \<le> 1"
proof -
  have n: "0 < count_list y k" using assms(2) by (rule count_list_pos)
  have m: "0 < count_list (group_values (zip x y) k) c" using assms(3) by (rule count_list_pos)
  have le: "count_list (group_values (zip x y) k) c \<le> count_list y k"
    using assms(1) by (rule count_group_values_le)
  show "0 < real (count_list (group_values (zip x y) k) c) / real (count_list y k)"
    using n m by simp
  show "real (count_list (group_values (zip x y) k) c) / real (count_list y k) \<le> 1"
    using n le by simp
qed

section \<open>What fit stores\<close>

lemma woe_of_both:
  assumes "map_of p_event c = Some (Fin a)" and "map_of p_non_event c = Some (Fin b)"
    and "0 < a" and "0 < b"
  shows "map_of (woe_of p_event p_non_event) c = Some (Fin (ln (b / a)))"
proof -
  have pos: "0 < b / a" using assms(3,4) by simp
  have ne: "a \<noteq> 0" using assms(3) by simp
  have "flog (Fin (b / a)) = Fin (ln (b / a))" using pos by (simp del: zero_less_divide_iff divide_less_0_iff divide_eq_0_iff)
  with ne have "flog (fdiv (Fin b) (Fin a)) = Fin (ln (b / a))" by simp
  with assms(1,2) show ?thesis
    by (simp add: woe_of_def map_of_series_fillna map_of_series_log map_of_align_op)
qed

lemma woe_of_one_sided:
  assumes "(map_of p_event c = None) \<noteq> (map_of p_non_event c = None)"
  shows "map_of (woe_of p_event p_non_event) c = Some (Fin 0)"
  using assms
  by (auto simp: woe_of_def map_of_series_fillna map_of_series_log map_of_align_op)

lemma woe_of_absent:
  assumes "map_of p_event c = None" and "map_of p_non_event c = None"
  shows "map_of (woe_of p_event p_non_event) c = None"
  using assms by (simp add: woe_of_def map_of_series_fillna map_of_series_log map_of_align_op)

lemma iv_of_both:
  assumes "map_of p_event c = Some (Fin a)" and "map_of p_non_event c = Some (Fin b)"
    and "0 < a" and "0 < b"
  shows "map_of (iv_of fna p_event p_non_event) c = Some (Fin ((b - a) * ln (b / a)))"
  using assms woe_of_both [OF assms]
  by (cases fna) (simp_all add: iv_of_def Let_def map_of_series_fillna map_of_align_op fsub_def)

lemma iv_of_one_sided:
  assumes "(map_of p_event c = None) \<noteq> (map_of p_non_event c = None)"
  shows "map_of (iv_of fna p_event p_non_event) c = Some (case fna of None \<Rightarrow> NaN | Some d \<Rightarrow> d)"
  using assms woe_of_one_sided [OF assms]
  by (cases fna) (auto simp: iv_of_def Let_def map_of_series_fillna map_of_align_op)

lemma fit_loop_fields:
  "fit_loop fs X y enc = (enc', r) \<Longrightarrow>
     feats enc' = feats enc \<and> drop_original enc' = drop_original enc \<and> fillna enc' = fillna enc \<and>
     prefix enc' = prefix enc \<and> suffix enc' = suffix enc \<and> is_fitted enc' = is_fitted enc"
  by (induction fs arbitrary: enc) (auto split: option.splits sum.splits prod.splits)

lemma fit_loop_other:
  "fit_loop fs X y enc = (enc', r) \<Longrightarrow> f \<notin> set fs \<Longrightarrow>
     transform_woe enc' f = transform_woe enc f \<and> transform_iv enc' f = transform_iv enc f"
  by (induction fs arbitrary: enc) (auto split: option.splits sum.splits prod.splits)

lemma fit_loop_stored:
  "fit_loop fs X y enc = (enc', None) \<Longrightarrow> f \<in> set fs \<Longrightarrow>
     \<exists>x p_event p_non_event. X f = Some x \<and> calc_perc x y = Inr (p_event, p_non_event) \<and>
       transform_woe enc' f = Some (to_dict (woe_of p_event p_non_event)) \<and>
       transform_iv enc' f = Some (iv_of (fillna enc) p_event p_non_event)"
proof (induction fs arbitrary: enc)
  case Nil
  then show ?case by simp
next
  case (Cons g fs)
  from Cons.prems(1) obtain x p_event p_non_event where
    x: "X g = Some x" and cp: "calc_perc x y = Inr (p_event, p_non_event)" and
    rest: "fit_loop fs X y
       (enc\<lparr>transform_woe := (transform_woe enc)(g \<mapsto> to_dict (woe_of p_event p_non_event)),
            transform_iv := (transform_iv enc)(g \<mapsto> iv_of (fillna enc) p_event p_non_event)\<rparr>) = (enc', None)"
    by (auto split: option.splits sum.splits prod.splits)
  show ?case
  proof (cases "f \<in> set fs")
    case True
    from Cons.IH [OF rest True] show ?thesis by simp
  next
    case False
    with Cons.prems(2) have fg: "f = g" by simp
    from fit_loop_other [OF rest False] x cp fg show ?thesis by simp
  qed
qed

lemma fit_stored:
  assumes "fit enc X y = (enc', None)" and "f \<in> set (feats enc)"
  shows "\<exists>x p_event p_non_event. X f = Some x \<and> calc_perc x y = Inr (p_event, p_non_event) \<and>
       transform_woe enc' f = Some (to_dict (woe_of p_event p_non_event)) \<and>
       transform_iv enc' f = Some (iv_of (fillna enc) p_event p_non_event)"
proof -
  from assms(1) obtain enc1 where l: "fit_loop (feats enc) X y enc = (enc1, None)"
    and e: "enc' = enc1\<lparr>is_fitted := True\<rparr>"
    by (auto simp: fit_def split: prod.splits option.splits)
  from fit_loop_stored [OF l assms(2)] e show ?thesis by simp
qed

lemma fit_fields:
  assumes "fit enc X y = (enc', None)"
  shows "feats enc' = feats enc" and "drop_original enc' = drop_original enc"
    and "fillna enc' = fillna enc" and "prefix enc' = prefix enc" and "suffix enc' = suffix enc"
    and "is_fitted enc'"
proof -
  from assms(1) obtain enc1 where l: "fit_loop (feats enc) X y enc = (enc1, None)"
    and e: "enc' = enc1\<lparr>is_fitted := True\<rparr>"
    by (auto simp: fit_def split: prod.splits option.splits)
  from fit_loop_fields [OF l] e
  show "feats enc' = feats enc" and "drop_original enc' = drop_original enc"
    and "fillna enc' = fillna enc" and "prefix enc' = prefix enc" and "suffix enc' = suffix enc"
    and "is_fitted enc'"
    by simp_all
qed

section \<open>The example, evaluated\<close>

lemma example_calc_perc:
  "calc_perc example_city example_y =
     Inr ([(Cat ''A'', Fin 1)], [(Cat ''A'', Fin (1 / 3)), (Cat ''B'', Fin (2 / 3))])"
  by (simp add: calc_perc_def example_city_def example_y_def groupby_value_counts_def
      group_values_def value_counts_def getitem_def div_scalar_def isna_def)

lemma example_fit_loop_ok:
  "snd (fit_loop [''city''] example_X example_y enc) = None"
  by (simp add: example_X_def example_calc_perc)

lemma example_fit_ok:
  "snd (fit (init [''city''] d fna p s) example_X example_y) = None"
proof -
  have f: "feats (init [''city''] d fna p s) = [''city'']"
    by (simp add: init_def)
  obtain enc1 r where l: "fit_loop [''city''] example_X example_y (init [''city''] d fna p s) = (enc1, r)"
    by (cases "fit_loop [''city''] example_X example_y (init [''city''] d fna p s)")
  with example_fit_loop_ok [of "init [''city''] d fna p s"] have r: "r = None" by simp
  show ?thesis unfolding fit_def f l r by simp
qed

lemma example_fit_eq:
  "fit (init [''city''] d fna p s) example_X example_y =
     (fst (fit (init [''city''] d fna p s) example_X example_y), None)"
  using example_fit_ok [of d fna p s] by (simp add: prod_eq_iff)

section \<open>The fitted weights of evidence and information values\<close>

text \<open>
  Claim C1. After a successful \<open>fit\<close>, for every configured feature and every category
  that has an entry in both proportion mappings, both proportions are positive, the stored
  weight of evidence is \<open>ln (p_non_event / p_event)\<close>, and the stored information value
  is \<open>(p_non_event - p_event)\<close> times the stored weight of evidence. When a fill value
  is configured, the undefined information values (those of the categories with an entry
  in only one mapping) are stored as that fill value.
\<close>
theorem fit_woe_iv_both_classes:
  assumes "fit enc X y = (enc', None)" and "feat \<in> set (feats enc)"
  shows "\<exists>x p_event p_non_event woe iv.
      X feat = Some x \<and> calc_perc x y = Inr (p_event, p_non_event) \<and>
      transform_woe enc' feat = Some woe \<and> transform_iv enc' feat = Some iv \<and>
      (\<forall>c pe pn. map_of p_event c = Some pe \<and> map_of p_non_event c = Some pn \<longrightarrow>
         (\<exists>a b w. pe = Fin a \<and> pn = Fin b \<and> 0 < a \<and> 0 < b \<and>
            woe c = Some (Fin w) \<and> w = ln (b / a) \<and>
            map_of iv c = Some (Fin ((b - a) * w)))) \<and>
      (\<forall>c d. fillna enc = Some d \<and> (map_of p_event c = None) \<noteq> (map_of p_non_event c = None) \<longrightarrow>
         map_of iv c = Some d)"
proof -
  from fit_stored [OF assms] obtain x p_event p_non_event where
    x: "X feat = Some x" and cp: "calc_perc x y = Inr (p_event, p_non_event)" and
    w: "transform_woe enc' feat = Some (to_dict (woe_of p_event p_non_event))" and
    i: "transform_iv enc' feat = Some (iv_of (fillna enc) p_event p_non_event)"
    by blast
  note facts = calc_perc_Inr [OF cp]
  have both: "\<exists>a b w. pe = Fin a \<and> pn = Fin b \<and> 0 < a \<and> 0 < b \<and>
            to_dict (woe_of p_event p_non_event) c = Some (Fin w) \<and> w = ln (b / a) \<and>
            map_of (iv_of (fillna enc) p_event p_non_event) c = Some (Fin ((b - a) * w))"
    if pe: "map_of p_event c = Some pe" and pn: "map_of p_non_event c = Some pn" for c pe pn
  proof -
    from pe facts(1,2,4) obtain a where a: "pe = Fin a" "0 < a"
      by (auto simp: proportion_value split: if_splits dest: proportion_range(1))
    from pn facts(1,3,5) obtain b where b: "pn = Fin b" "0 < b"
      by (auto simp: proportion_value split: if_splits dest: proportion_range(1))
    from pe pn a b have pe': "map_of p_event c = Some (Fin a)" and pn': "map_of p_non_event c = Some (Fin b)"
      by simp_all
    from woe_of_both [OF pe' pn' a(2) b(2)] iv_of_both [OF pe' pn' a(2) b(2)] a b
    show ?thesis by (simp add: to_dict_def)
  qed
  have one: "map_of (iv_of (fillna enc) p_event p_non_event) c = Some d"
    if "fillna enc = Some d" and "(map_of p_event c = None) \<noteq> (map_of p_non_event c = None)" for c d
    using iv_of_one_sided [OF that(2), of "fillna enc"] that(1) by simp
  from x cp w i both one show ?thesis by blast
qed

theorem fit_woe_iv_both_classes_witness:
  "fit example_encoder_fill0 example_X example_y =
      (fst (fit example_encoder_fill0 example_X example_y), None) \<and>
   ''city'' \<in> set (feats example_encoder_fill0) \<and>
   (\<exists>woe iv.
      transform_woe (fst (fit example_encoder_fill0 example_X example_y)) ''city'' = Some woe \<and>
      transform_iv (fst (fit example_encoder_fill0 example_X example_y)) ''city'' = Some iv \<and>
      woe (Cat ''A'') = Some (Fin (ln ((1 / 3) / 1))) \<and>
      map_of iv (Cat ''A'') = Some (Fin ((1 / 3 - 1) * ln ((1 / 3) / 1))) \<and>
      map_of iv (Cat ''B'') = Some (Fin 0))"
proof -
  have h1: "fit example_encoder_fill0 example_X example_y =
      (fst (fit example_encoder_fill0 example_X example_y), None)"
    unfolding example_encoder_fill0_def by (rule example_fit_eq)
  have h2: "''city'' \<in> set (feats example_encoder_fill0)"
    by (simp add: example_encoder_fill0_def init_def)
  from fit_woe_iv_both_classes [OF h1 h2] obtain x p_event p_non_event woe iv where
    x: "example_X ''city'' = Some x" and cp: "calc_perc x example_y = Inr (p_event, p_non_event)" and
    w: "transform_woe (fst (fit example_encoder_fill0 example_X example_y)) ''city'' = Some woe" and
    i: "transform_iv (fst (fit example_encoder_fill0 example_X example_y)) ''city'' = Some iv" and
    both: "\<And>c pe pn. map_of p_event c = Some pe \<and> map_of p_non_event c = Some pn \<Longrightarrow>
         (\<exists>a b w. pe = Fin a \<and> pn = Fin b \<and> 0 < a \<and> 0 < b \<and>
            woe c = Some (Fin w) \<and> w = ln (b / a) \<and>
            map_of iv c = Some (Fin ((b - a) * w)))" and
    one: "\<And>c d. fillna example_encoder_fill0 = Some d \<and> (map_of p_event c = None) \<noteq> (map_of p_non_event c = None) \<Longrightarrow>
         map_of iv c = Some d"
    by blast
  from x have "x = example_city" by (simp add: example_X_def)
  with cp example_calc_perc have pe: "p_event = [(Cat ''A'', Fin 1)]"
    and pn: "p_non_event = [(Cat ''A'', Fin (1 / 3)), (Cat ''B'', Fin (2 / 3))]"
    by simp_all
  have "map_of p_event (Cat ''A'') = Some (Fin 1) \<and> map_of p_non_event (Cat ''A'') = Some (Fin (1 / 3))"
    using pe pn by simp
  from both [OF this] obtain a b w where
    ab: "Fin 1 = Fin a" "Fin (1 / 3) = Fin b" and
    ww: "woe (Cat ''A'') = Some (Fin w)" "w = ln (b / a)" and
    ii: "map_of iv (Cat ''A'') = Some (Fin ((b - a) * w))"
    by blast
  from ab have a: "a = 1" and b: "b = 1 / 3" by (simp_all only: fl.inject)
  from ww ii have A: "woe (Cat ''A'') = Some (Fin (ln ((1 / 3) / 1)))"
    "map_of iv (Cat ''A'') = Some (Fin ((1 / 3 - 1) * ln ((1 / 3) / 1)))"
    unfolding a b by (simp_all only:)
  from one [of "Fin 0" "Cat ''B''"] pe pn
  have B: "map_of iv (Cat ''B'') = Some (Fin 0)"
    by (simp add: example_encoder_fill0_def init_def)
  from h1 h2 w i A B show ?thesis by blast
qed

text \<open>
  Claim C2. After a successful \<open>fit\<close>, for every configured feature, every category
  with an entry in exactly one of the two proportion mappings is stored in the table of
  weights of evidence with the value 0.
\<close>
theorem fit_woe_one_class_zero:
  assumes "fit enc X y = (enc', None)" and "feat \<in> set (feats enc)"
  shows "\<exists>x p_event p_non_event woe.
      X feat = Some x \<and> calc_perc x y = Inr (p_event, p_non_event) \<and>
      transform_woe enc' feat = Some woe \<and>
      (\<forall>c. (map_of p_event c = None) \<noteq> (map_of p_non_event c = None) \<longrightarrow> woe c = Some (Fin 0))"
proof -
  from fit_stored [OF assms] obtain x p_event p_non_event where
    x: "X feat = Some x" and cp: "calc_perc x y = Inr (p_event, p_non_event)" and
    w: "transform_woe enc' feat = Some (to_dict (woe_of p_event p_non_event))"
    by blast
  have "to_dict (woe_of p_event p_non_event) c = Some (Fin 0)"
    if "(map_of p_event c = None) \<noteq> (map_of p_non_event c = None)" for c
    using woe_of_one_sided [OF that] by (simp add: to_dict_def)
  with x cp w show ?thesis by blast
qed

theorem fit_woe_one_class_zero_witness:
  "fit example_encoder example_X example_y = (fst (fit example_encoder example_X example_y), None) \<and>
   ''city'' \<in> set (feats example_encoder) \<and>
   (\<exists>woe. transform_woe (fst (fit example_encoder example_X example_y)) ''city'' = Some woe \<and>
      woe (Cat ''B'') = Some (Fin 0))"
proof -
  have h1: "fit example_encoder example_X example_y = (fst (fit example_encoder example_X example_y), None)"
    unfolding example_encoder_def by (rule example_fit_eq)
  have h2: "''city'' \<in> set (feats example_encoder)"
    by (simp add: example_encoder_def init_def)
  from fit_woe_one_class_zero [OF h1 h2] obtain x p_event p_non_event woe where
    x: "example_X ''city'' = Some x" and cp: "calc_perc x example_y = Inr (p_event, p_non_event)" and
    w: "transform_woe (fst (fit example_encoder example_X example_y)) ''city'' = Some woe" and
    one: "\<And>c. (map_of p_event c = None) \<noteq> (map_of p_non_event c = None) \<Longrightarrow> woe c = Some (Fin 0)"
    by blast
  from x have "x = example_city" by (simp add: example_X_def)
  with cp example_calc_perc have pe: "p_event = [(Cat ''A'', Fin 1)]"
    and pn: "p_non_event = [(Cat ''A'', Fin (1 / 3)), (Cat ''B'', Fin (2 / 3))]"
    by simp_all
  from one [of "Cat ''B''"] pe pn have "woe (Cat ''B'') = Some (Fin 0)" by simp
  with h1 h2 w show ?thesis by blast
qed

section \<open>Descriptions, the fitted guard and degenerate targets\<close>

lemma add_description_loop_first_match:
  "(\<forall>b \<in> set pre. \<not> (fle (fst (fst b)) v \<and> flt v (snd (fst b)))) \<Longrightarrow>
   fle (fst bounds) v \<Longrightarrow> flt v (snd bounds) \<Longrightarrow>
   add_description_loop (pre @ (bounds, desc) # post) v = desc"
  by (induction pre) auto

lemma add_description_loop_no_match:
  "(\<forall>b \<in> set bands. \<not> (fle (fst (fst b)) v \<and> flt v (snd (fst b)))) \<Longrightarrow>
   add_description_loop bands v = ''Too good to be true!''"
  by (induction bands) auto

text \<open>
  Claim C7. The description of a finite information value is found by trying the five
  half-open bands, each with an inclusive lower bound, in ascending order; in the loop the
  first band that matches gives the description. In particular 0.02 is described as
  "Weak predictive power", 0.1 as "Medium predictive power" and 0.5 as
  "Too good to be true!".
\<close>
theorem add_description_bands:
  "add_description (Fin r) =
     (if 0 \<le> r \<and> r < 0.02 then ''Not useful for prediction''
      else if 0.02 \<le> r \<and> r < 0.1 then ''Weak predictive power''
      else if 0.1 \<le> r \<and> r < 0.3 then ''Medium predictive power''
      else if 0.3 \<le> r \<and> r < 0.5 then ''Strong predictive power''
      else ''Too good to be true!'') \<and>
   ((\<forall>b \<in> set pre. \<not> (fle (fst (fst b)) v \<and> flt v (snd (fst b)))) \<and>
     fle (fst bounds) v \<and> flt v (snd bounds) \<longrightarrow>
     add_description_loop (pre @ (bounds, desc) # post) v = desc) \<and>
   add_description (Fin 0.02) = ''Weak predictive power'' \<and>
   add_description (Fin 0.1) = ''Medium predictive power'' \<and>
   add_description (Fin 0.5) = ''Too good to be true!''"
proof -
  have a: "add_description (Fin r) =
     (if 0 \<le> r \<and> r < 0.02 then ''Not useful for prediction''
      else if 0.02 \<le> r \<and> r < 0.1 then ''Weak predictive power''
      else if 0.1 \<le> r \<and> r < 0.3 then ''Medium predictive power''
      else if 0.3 \<le> r \<and> r < 0.5 then ''Strong predictive power''
      else ''Too good to be true!'')"
    by (simp add: add_description_def predictive_power_def)
  have b: "(\<forall>b \<in> set pre. \<not> (fle (fst (fst b)) v \<and> flt v (snd (fst b)))) \<and>
     fle (fst bounds) v \<and> flt v (snd bounds) \<longrightarrow>
     add_description_loop (pre @ (bounds, desc) # post) v = desc"
    using add_description_loop_first_match [of pre v bounds desc post] by blast
  have c: "add_description (Fin 0.02) = ''Weak predictive power''"
    by (simp add: add_description_def predictive_power_def)
  have d: "add_description (Fin 0.1) = ''Medium predictive power''"
    by (simp add: add_description_def predictive_power_def)
  have e: "add_description (Fin 0.5) = ''Too good to be true!''"
    by (simp add: add_description_def predictive_power_def)
  show ?thesis
    by (rule conjI [OF a conjI [OF b conjI [OF c conjI [OF d e]]]])
qed

theorem add_description_bands_witness:
  "list_all (\<lambda>b. \<not> (fle (fst (fst b)) (Fin 0.05) \<and> flt (Fin 0.05) (snd (fst b))))
      [((Fin 0, Fin 0.02), ''Not useful for prediction'')] \<and>
   fle (fst (Fin 0.02, Fin 0.1)) (Fin 0.05) \<and> flt (Fin 0.05) (snd (Fin 0.02, Fin 0.1)) \<and>
   add_description (Fin 0.05) = ''Weak predictive power'' \<and>
   add_description_loop predictive_power (Fin 0.05) = ''Weak predictive power''"
  using add_description_bands [of "0.05" "[((Fin 0, Fin 0.02), ''Not useful for prediction'')]"
      "Fin 0.05" "(Fin 0.02, Fin 0.1)" "''Weak predictive power''"
      "[((Fin 0.1, Fin 0.3), ''Medium predictive power''),
        ((Fin 0.3, Fin 0.5), ''Strong predictive power''),
        ((Fin 0.5, PInf), ''Too good to be true!'')]"]
  by (simp add: predictive_power_def)

text \<open>
  Claim C8. An information value that matches none of the five bands is described as
  "Too good to be true!" by the fallback after the loop; every negative value is such a
  value.
\<close>
theorem add_description_fallback:
  "((\<forall>b \<in> set predictive_power. \<not> (fle (fst (fst b)) v \<and> flt v (snd (fst b)))) \<longrightarrow>
     add_description v = ''Too good to be true!'') \<and>
   (r < 0 \<longrightarrow>
     (\<forall>b \<in> set predictive_power. \<not> (fle (fst (fst b)) (Fin r) \<and> flt (Fin r) (snd (fst b)))) \<and>
     add_description (Fin r) = ''Too good to be true!'')"
proof -
  have 1: "(\<forall>b \<in> set predictive_power. \<not> (fle (fst (fst b)) u \<and> flt u (snd (fst b)))) \<longrightarrow>
     add_description u = ''Too good to be true!''" for u
    unfolding add_description_def by (blast intro: add_description_loop_no_match)
  have 2: "r < 0 \<longrightarrow>
     (\<forall>b \<in> set predictive_power. \<not> (fle (fst (fst b)) (Fin r) \<and> flt (Fin r) (snd (fst b)))) \<and>
     add_description (Fin r) = ''Too good to be true!''"
  proof
    assume neg: "r < 0"
    then have none: "\<forall>b \<in> set predictive_power. \<not> (fle (fst (fst b)) (Fin r) \<and> flt (Fin r) (snd (fst b)))"
      by (simp add: predictive_power_def)
    with 1 [of "Fin r"] show "(\<forall>b \<in> set predictive_power. \<not> (fle (fst (fst b)) (Fin r) \<and> flt (Fin r) (snd (fst b)))) \<and>
     add_description (Fin r) = ''Too good to be true!''" by blast
  qed
  show ?thesis by (rule conjI [OF 1 2])
qed

theorem add_description_fallback_witness:
  "(- 1 :: real) < 0 \<and>
   list_all (\<lambda>b. \<not> (fle (fst (fst b)) (Fin (- 1)) \<and> flt (Fin (- 1)) (snd (fst b)))) predictive_power \<and>
   add_description (Fin (- 1)) = ''Too good to be true!'' \<and>
   list_all (\<lambda>b. \<not> (fle (fst (fst b)) NaN \<and> flt NaN (snd (fst b)))) predictive_power \<and>
   add_description NaN = ''Too good to be true!''"
  using add_description_fallback [of "NaN" "- 1"] by (simp add: predictive_power_def)

lemma transofrm_loop_no_assert: "transofrm_loop enc fs X \<noteq> Inl AssertionError"
  by (induction fs arbitrary: X)
     (auto simp: Let_def series_map_def split: option.splits sum.splits)

lemma information_values_loop_ok:
  "(\<forall>f \<in> set fs. transform_iv enc f \<noteq> None) \<Longrightarrow>
   information_values_loop enc fs = Inr (map (\<lambda>f. (f, series_sum (the (transform_iv enc f)))) fs)"
  by (induction fs) auto

lemma information_values_fitted:
  assumes "fit enc X y = (enc', None)"
  shows "information_values enc' add_desc =
     Inr (map (\<lambda>f. (f, series_sum (the (transform_iv enc' f)),
                    if add_desc then Some (add_description (series_sum (the (transform_iv enc' f)))) else None))
              (feats enc))"
proof -
  have "\<forall>f \<in> set (feats enc'). transform_iv enc' f \<noteq> None"
    using fit_stored [OF assms] fit_fields(1) [OF assms] by fastforce
  from information_values_loop_ok [OF this] fit_fields(1,6) [OF assms]
  show ?thesis by (simp add: information_values_def comp_def)
qed

text \<open>
  Claim C4, as stated: on a freshly constructed encoder \<open>transofrm\<close> and
  \<open>information_values\<close> raise NotFittedError. The guard is an \<open>assert\<close>, and the
  exception it raises is AssertionError.
\<close>
theorem unfitted_guard_counterexample:
  "transofrm example_encoder example_X = Inl AssertionError \<and>
   information_values example_encoder True = Inl AssertionError \<and>
   exception_name AssertionError \<noteq> ''NotFittedError''"
  by (simp add: transofrm_def information_values_def example_encoder_def init_def exception_name_def)

text \<open>
  Claim C4, amended. On a freshly constructed encoder \<open>transofrm\<close> and
  \<open>information_values\<close> raise AssertionError; after a successful \<open>fit\<close> neither call
  raises it.
\<close>
theorem unfitted_guard_assertion:
  "transofrm (init fs d fna p s) X0 = Inl AssertionError \<and>
   information_values (init fs d fna p s) add_desc = Inl AssertionError \<and>
   (fit enc X y = (enc', None) \<longrightarrow>
      transofrm enc' X' \<noteq> Inl AssertionError \<and>
      information_values enc' add_desc \<noteq> Inl AssertionError)"
proof -
  have a: "transofrm (init fs d fna p s) X0 = Inl AssertionError"
    by (simp add: transofrm_def init_def)
  have b: "information_values (init fs d fna p s) add_desc = Inl AssertionError"
    by (simp add: information_values_def init_def)
  have c: "fit enc X y = (enc', None) \<longrightarrow>
      transofrm enc' X' \<noteq> Inl AssertionError \<and>
      information_values enc' add_desc \<noteq> Inl AssertionError"
  proof
    assume ok: "fit enc X y = (enc', None)"
    have "transofrm enc' X' \<noteq> Inl AssertionError"
      using fit_fields(6) [OF ok] by (simp add: transofrm_def transofrm_loop_no_assert)
    moreover have "information_values enc' add_desc \<noteq> Inl AssertionError"
      by (simp add: information_values_fitted [OF ok])
    ultimately show "transofrm enc' X' \<noteq> Inl AssertionError \<and>
      information_values enc' add_desc \<noteq> Inl AssertionError" by blast
  qed
  show ?thesis by (rule conjI [OF a conjI [OF b c]])
qed

theorem unfitted_guard_assertion_witness:
  "fit example_encoder example_X example_y = (fst (fit example_encoder example_X example_y), None) \<and>
   transofrm (fst (fit example_encoder example_X example_y)) example_X \<noteq> Inl AssertionError \<and>
   information_values (fst (fit example_encoder example_X example_y)) True \<noteq> Inl AssertionError"
proof -
  have h: "fit example_encoder example_X example_y = (fst (fit example_encoder example_X example_y), None)"
    unfolding example_encoder_def by (rule example_fit_eq)
  from unfitted_guard_assertion [of _ _ _ _ _ _ True example_encoder example_X example_y
      "fst (fit example_encoder example_X example_y)" example_X] h
  show ?thesis by blast
qed






section \<open>The proportions\<close>

lemma foldl_fadd_Fin: "foldl fadd (Fin a) (map Fin rs) = Fin (a + sum_list rs)"
  by (induction rs arbitrary: a) (auto simp: add.assoc)

lemma series_sum_Fin:
  assumes "map snd s = map Fin rs"
  shows "series_sum s = Fin (sum_list rs)"
proof -
  have "filter (\<lambda>v. v \<noteq> NaN) (map Fin rs) = map Fin rs"
    by (induction rs) auto
  with assms show ?thesis by (simp add: series_sum_def foldl_fadd_Fin)
qed

lemma sum_list_count_remdups: "sum_list (map (count_list g) (remdups g)) = length g"
proof -
  have "sum_list (map (count_list g) (remdups g)) = sum (count_list g) (set (remdups g))"
    by (rule sum_list_distinct_conv_sum_set) simp
  also have "\<dots> = length g"
    using sum_count_set [of g "set g"] by simp
  finally show ?thesis .
qed

lemma sum_list_divide:
  "sum_list (map (\<lambda>v. real (f v) / d) ks) = real (sum_list (map f ks)) / d"
  by (induction ks) (auto simp: add_divide_distrib)

lemma series_sum_proportions:
  assumes "0 < n"
  shows "series_sum (div_scalar (value_counts g) n) = Fin (real (length g) / real n)"
proof -
  have "map snd (div_scalar (value_counts g) n) =
      map Fin (map (\<lambda>v. real (count_list g v) / real n) (remdups g))"
    using assms by (simp add: div_scalar_def value_counts_def comp_def)
  from series_sum_Fin [OF this] show ?thesis
    by (simp add: sum_list_divide sum_list_count_remdups)
qed

lemma group_values_no_missing:
  assumes "length x = length y" and "\<forall>c \<in> set x. \<not> isna c"
  shows "length (group_values (zip x y) k) = count_list y k"
proof -
  have "filter (\<lambda>c. \<not> isna c) (map fst (filter (\<lambda>r. snd r = k) (zip x y))) =
      map fst (filter (\<lambda>r. snd r = k) (zip x y))"
    using assms(2) by (auto simp: filter_id_conv dest: set_zip_leftD)
  then show ?thesis
    using assms(1) by (simp add: group_values_def length_filter_zip_snd)
qed

lemma calc_perc_success:
  assumes "length x = length y"
    and "group_values (zip x y) 1 \<noteq> []" and "group_values (zip x y) 0 \<noteq> []"
    and "1 \<in> set y" and "0 \<in> set y"
  shows "calc_perc x y =
     Inr (div_scalar (value_counts (group_values (zip x y) 1)) (count_list y 1),
          div_scalar (value_counts (group_values (zip x y) 0)) (count_list y 0))"
  using assms
  by (simp add: calc_perc_def Let_def groupby_value_counts_def value_counts_Nil getitem_def
      map_of_value_counts)

lemma div_scalar_range:
  assumes "length x = length y" and "k \<in> set y"
    and "e \<in> set (div_scalar (value_counts (group_values (zip x y) k)) (count_list y k))"
  shows "\<exists>r. snd e = Fin r \<and> 0 \<le> r \<and> r \<le> 1"
proof -
  from assms(3) obtain c where c: "c \<in> set (group_values (zip x y) k)"
    and e: "e = (c, fdiv (Fin (real (count_list (group_values (zip x y) k) c))) (Fin (real (count_list y k))))"
    by (auto simp: div_scalar_def value_counts_def)
  have n: "0 < count_list y k" using assms(2) by (rule count_list_pos)
  from proportion_range [OF assms(1,2) c] n e show ?thesis by auto
qed

text \<open>
  Claim C9, as stated: whenever both classes are present the event proportions sum to 1.
  A missing cell in an event row is dropped from the counts but not from the class total,
  so the proportions of the example sum to 1/2.
\<close>
theorem calc_perc_sum_counterexample:
  "calc_perc example_city_missing example_y_missing =
     Inr ([(Cat ''A'', Fin (1 / 2))], [(Cat ''A'', Fin 1)]) \<and>
   series_sum [(Cat ''A'' :: string val, Fin (1 / 2))] = Fin (1 / 2) \<and>
   Fin (1 / 2) \<noteq> Fin 1 \<and> 1 \<in> set example_y_missing \<and> 0 \<in> set example_y_missing"
  by (simp add: calc_perc_def example_city_missing_def example_y_missing_def
      groupby_value_counts_def group_values_def value_counts_def getitem_def div_scalar_def
      isna_def Let_def series_sum_def)

text \<open>
  Claim C9, amended. For a feature column without missing cells and a target of the same
  length in which both classes occur, the proportion estimator returns two Series; the
  event proportions sum to 1, the non-event proportions sum to 1, and every proportion
  lies in [0, 1].
\<close>
theorem calc_perc_proportions_sum_to_one:
  assumes "length x = length y" and "1 \<in> set y" and "0 \<in> set y"
    and "\<forall>c \<in> set x. \<not> isna c"
  shows "\<exists>p_event p_non_event.
      calc_perc x y = Inr (p_event, p_non_event) \<and>
      series_sum p_event = Fin 1 \<and> series_sum p_non_event = Fin 1 \<and>
      (\<forall>e \<in> set p_event \<union> set p_non_event. \<exists>r. snd e = Fin r \<and> 0 \<le> r \<and> r \<le> 1)"
proof -
  have n1: "0 < count_list y 1" and n0: "0 < count_list y 0"
    using assms(2,3) by (simp_all add: count_list_pos)
  have l1: "length (group_values (zip x y) 1) = count_list y 1"
    and l0: "length (group_values (zip x y) 0) = count_list y 0"
    using assms(1,4) by (simp_all add: group_values_no_missing)
  from l1 l0 n1 n0 have ne: "group_values (zip x y) 1 \<noteq> []" "group_values (zip x y) 0 \<noteq> []"
    by auto
  note cp = calc_perc_success [OF assms(1) ne assms(2,3)]
  have s1: "series_sum (div_scalar (value_counts (group_values (zip x y) 1)) (count_list y 1)) = Fin 1"
    using n1 by (simp add: series_sum_proportions l1)
  have s0: "series_sum (div_scalar (value_counts (group_values (zip x y) 0)) (count_list y 0)) = Fin 1"
    using n0 by (simp add: series_sum_proportions l0)
  have r: "\<forall>e \<in> set (div_scalar (value_counts (group_values (zip x y) 1)) (count_list y 1)) \<union>
      set (div_scalar (value_counts (group_values (zip x y) 0)) (count_list y 0)).
      \<exists>r. snd e = Fin r \<and> 0 \<le> r \<and> r \<le> 1"
    using div_scalar_range [OF assms(1,2)] div_scalar_range [OF assms(1,3)] by blast
  from cp s1 s0 r show ?thesis by blast
qed

theorem calc_perc_proportions_sum_to_one_witness:
  "length example_city = length example_y \<and> 1 \<in> set example_y \<and> 0 \<in> set example_y \<and>
   list_all (\<lambda>c. \<not> isna c) example_city \<and>
   calc_perc example_city example_y =
     Inr ([(Cat ''A'', Fin 1)], [(Cat ''A'', Fin (1 / 3)), (Cat ''B'', Fin (2 / 3))]) \<and>
   series_sum [(Cat ''A'' :: string val, Fin 1)] = Fin 1 \<and>
   series_sum [(Cat ''A'' :: string val, Fin (1 / 3)), (Cat ''B'', Fin (2 / 3))] = Fin 1"
proof -
  have h1: "length example_city = length example_y" by (simp add: example_city_def example_y_def)
  have h2: "1 \<in> set example_y" and h3: "0 \<in> set example_y" by (simp_all add: example_y_def)
  have h4: "\<forall>c \<in> set example_city. \<not> isna c" by (simp add: example_city_def isna_def)
  from calc_perc_proportions_sum_to_one [OF h1 h2 h3 h4] example_calc_perc
  have "series_sum [(Cat ''A'' :: string val, Fin 1)] = Fin 1"
    and "series_sum [(Cat ''A'' :: string val, Fin (1 / 3)), (Cat ''B'', Fin (2 / 3))] = Fin 1"
    by auto
  with h1 h2 h3 h4 example_calc_perc show ?thesis by (simp add: list_all_iff)
qed

section \<open>The reported information values\<close>

lemma iv_of_absent:
  assumes "map_of p_event c = None" and "map_of p_non_event c = None"
  shows "map_of (iv_of fna p_event p_non_event) c = None"
  using assms woe_of_absent [OF assms]
  by (cases fna) (simp_all add: iv_of_def Let_def map_of_series_fillna map_of_align_op)

lemma distinct_align_op: "distinct (map fst (align_op f a b))"
  by (simp add: align_op_def comp_def)

lemma distinct_iv_of: "distinct (map fst (iv_of fna p_event p_non_event))"
  by (cases fna) (simp_all add: iv_of_def Let_def series_fillna_def distinct_align_op comp_def case_prod_unfold)

lemma calc_perc_value_pos:
  assumes "calc_perc x y = Inr (p_event, p_non_event)"
  shows "map_of p_event c = Some v \<Longrightarrow> \<exists>a. v = Fin a \<and> 0 < a"
    and "map_of p_non_event c = Some v \<Longrightarrow> \<exists>b. v = Fin b \<and> 0 < b"
proof -
  note facts = calc_perc_Inr [OF assms]
  show "map_of p_event c = Some v \<Longrightarrow> \<exists>a. v = Fin a \<and> 0 < a"
    using facts(1,2,4) by (auto simp: proportion_value split: if_splits dest: proportion_range(1))
  show "map_of p_non_event c = Some v \<Longrightarrow> \<exists>b. v = Fin b \<and> 0 < b"
    using facts(1,3,5) by (auto simp: proportion_value split: if_splits dest: proportion_range(1))
qed

lemma iv_of_None_values:
  assumes cp: "calc_perc x y = Inr (p_event, p_non_event)"
    and mem: "(c, v) \<in> set (iv_of None p_event p_non_event)"
  shows "v = NaN \<or> (\<exists>r. v = Fin r)"
proof -
  from mem distinct_iv_of [of None p_event p_non_event]
  have m: "map_of (iv_of None p_event p_non_event) c = Some v" by simp
  show ?thesis
  proof (cases "map_of p_event c")
    case None
    show ?thesis
    proof (cases "map_of p_non_event c")
      case None
      with \<open>map_of p_event c = None\<close> iv_of_absent [of p_event c p_non_event None] m
      show ?thesis by simp
    next
      case (Some b)
      with None have "(map_of p_event c = None) \<noteq> (map_of p_non_event c = None)" by simp
      from iv_of_one_sided [OF this, of None] m show ?thesis by simp
    qed
  next
    case (Some pe)
    show ?thesis
    proof (cases "map_of p_non_event c")
      case None
      with Some have "(map_of p_event c = None) \<noteq> (map_of p_non_event c = None)" by simp
      from iv_of_one_sided [OF this, of None] m show ?thesis by simp
    next
      case (Some pn)
      from calc_perc_value_pos(1) [OF cp \<open>map_of p_event c = Some pe\<close>]
      obtain a where a: "pe = Fin a" "0 < a" by blast
      from calc_perc_value_pos(2) [OF cp Some]
      obtain b where b: "pn = Fin b" "0 < b" by blast
      from iv_of_both [of p_event c a p_non_event b None] \<open>map_of p_event c = Some pe\<close> Some a b m
      show ?thesis by simp
    qed
  qed
qed

lemma foldl_fadd_all_Fin:
  "(\<forall>v \<in> set vs. \<exists>r. v = Fin r) \<Longrightarrow> \<exists>r. foldl fadd (Fin a) vs = Fin r"
  by (induction vs arbitrary: a) auto

lemma series_sum_defined:
  assumes "\<forall>e \<in> set s. snd e = NaN \<or> (\<exists>r. snd e = Fin r)"
  shows "\<exists>r. series_sum s = Fin r"
  unfolding series_sum_def using assms by (intro foldl_fadd_all_Fin) auto

lemma example_iv:
  "iv_of None [(Cat ''A'', Fin 1)] [(Cat ''A'', Fin (1 / 3)), (Cat ''B'', Fin (2 / 3))] =
     [(Cat ''B'', NaN), (Cat ''A'', Fin ((1 / 3 - 1) * ln ((1 / 3) / 1)))]"
  by (simp add: iv_of_def woe_of_def align_op_def series_fillna_def series_log_def fsub_def)

text \<open>
  Claim C3, as stated: the reported information value is the sum of the stored
  contributions also when some of them are undefined. In the example, without a fill
  value, the contribution of B is stored as NaN, so the plain sum of the stored
  contributions is NaN, while the reported value is the contribution of A alone.
\<close>
theorem information_values_sum_counterexample:
  "transform_iv (fst (fit example_encoder example_X example_y)) ''city'' =
     Some [(Cat ''B'', NaN), (Cat ''A'', Fin ((1 / 3 - 1) * ln ((1 / 3) / 1)))] \<and>
   information_values (fst (fit example_encoder example_X example_y)) False =
     Inr [(''city'', Fin ((1 / 3 - 1) * ln ((1 / 3) / 1)), None)] \<and>
   nan_propagating_sum [NaN, Fin ((1 / 3 - 1) * ln ((1 / 3) / 1))] = NaN"
proof -
  have h1: "fit example_encoder example_X example_y = (fst (fit example_encoder example_X example_y), None)"
    unfolding example_encoder_def by (rule example_fit_eq)
  have h2: "''city'' \<in> set (feats example_encoder)"
    by (simp add: example_encoder_def init_def)
  from fit_stored [OF h1 h2] example_calc_perc
  have iv: "transform_iv (fst (fit example_encoder example_X example_y)) ''city'' =
     Some [(Cat ''B'', NaN), (Cat ''A'', Fin ((1 / 3 - 1) * ln ((1 / 3) / 1)))]"
    by (auto simp: example_X_def example_encoder_def init_def example_iv)
  have h3: "feats example_encoder = [''city'']"
    by (simp add: example_encoder_def init_def)
  have "information_values (fst (fit example_encoder example_X example_y)) False =
     Inr [(''city'', Fin ((1 / 3 - 1) * ln ((1 / 3) / 1)), None)]"
    by (simp add: information_values_fitted [OF h1] h3 iv series_sum_def)
  with iv show ?thesis by (simp add: nan_propagating_sum_def)
qed

text \<open>
  Claim C3, amended. After a successful \<open>fit\<close>, \<open>information_values\<close> returns one row for
  each configured feature, and the information value of a feature is the sum of its stored
  contributions that are defined: the NaN contributions are skipped. Without a fill value
  the reported information value is therefore always a finite number.
\<close>
theorem information_values_sum_defined:
  assumes "fit enc X y = (enc', None)"
  shows "\<exists>rows. information_values enc' add_desc = Inr rows \<and> map fst rows = feats enc \<and>
     (\<forall>row \<in> set rows. \<exists>s. transform_iv enc' (fst row) = Some s \<and>
         fst (snd row) = nan_propagating_sum (filter (\<lambda>v. v \<noteq> NaN) (map snd s))) \<and>
     (fillna enc = None \<longrightarrow> (\<forall>row \<in> set rows. \<exists>r. fst (snd row) = Fin r))"
proof -
  let ?rows = "map (\<lambda>f. (f, series_sum (the (transform_iv enc' f)),
                    if add_desc then Some (add_description (series_sum (the (transform_iv enc' f)))) else None))
              (feats enc)"
  have a: "information_values enc' add_desc = Inr ?rows"
    by (rule information_values_fitted [OF assms])
  have b: "map fst ?rows = feats enc" by (simp add: comp_def)
  have c: "\<forall>row \<in> set ?rows. \<exists>s. transform_iv enc' (fst row) = Some s \<and>
         fst (snd row) = nan_propagating_sum (filter (\<lambda>v. v \<noteq> NaN) (map snd s))"
  proof
    fix row assume "row \<in> set ?rows"
    then obtain f where f: "f \<in> set (feats enc)"
      and row: "row = (f, series_sum (the (transform_iv enc' f)),
                    if add_desc then Some (add_description (series_sum (the (transform_iv enc' f)))) else None)"
      by auto
    from fit_stored [OF assms f] obtain s where "transform_iv enc' f = Some s" by blast
    with row show "\<exists>s. transform_iv enc' (fst row) = Some s \<and>
         fst (snd row) = nan_propagating_sum (filter (\<lambda>v. v \<noteq> NaN) (map snd s))"
      by (simp add: series_sum_def nan_propagating_sum_def)
  qed
  have d: "fillna enc = None \<longrightarrow> (\<forall>row \<in> set ?rows. \<exists>r. fst (snd row) = Fin r)"
  proof (intro impI ballI)
    fix row assume fna: "fillna enc = None" and "row \<in> set ?rows"
    then obtain f where f: "f \<in> set (feats enc)"
      and row: "fst (snd row) = series_sum (the (transform_iv enc' f))"
      by auto
    from fit_stored [OF assms f] fna obtain x p_event p_non_event where
      cp: "calc_perc x y = Inr (p_event, p_non_event)" and
      iv: "transform_iv enc' f = Some (iv_of None p_event p_non_event)"
      by auto
    have "\<forall>e \<in> set (iv_of None p_event p_non_event). snd e = NaN \<or> (\<exists>r. snd e = Fin r)"
    proof
      fix e assume "e \<in> set (iv_of None p_event p_non_event)"
      then have "(fst e, snd e) \<in> set (iv_of None p_event p_non_event)" by simp
      from iv_of_None_values [OF cp this] show "snd e = NaN \<or> (\<exists>r. snd e = Fin r)" .
    qed
    from series_sum_defined [OF this] row iv show "\<exists>r. fst (snd row) = Fin r" by simp
  qed
  show ?thesis
    by (rule exI [of _ ?rows]) (rule conjI [OF a conjI [OF b conjI [OF c d]]])
qed

theorem information_values_sum_defined_witness:
  "fit example_encoder example_X example_y = (fst (fit example_encoder example_X example_y), None) \<and>
   fillna example_encoder = None \<and>
   (\<exists>rows. information_values (fst (fit example_encoder example_X example_y)) True = Inr rows \<and>
      map fst rows = [''city''] \<and>
      list_all (\<lambda>row. \<exists>r. fst (snd row) = Fin r) rows)"
proof -
  have h1: "fit example_encoder example_X example_y = (fst (fit example_encoder example_X example_y), None)"
    unfolding example_encoder_def by (rule example_fit_eq)
  have h2: "fillna example_encoder = None" by (simp add: example_encoder_def init_def)
  have h3: "feats example_encoder = [''city'']" by (simp add: example_encoder_def init_def)
  from information_values_sum_defined [OF h1, of True] h2 h3
  obtain rows where "information_values (fst (fit example_encoder example_X example_y)) True = Inr rows"
    and "map fst rows = [''city'']" and "\<forall>row \<in> set rows. \<exists>r. fst (snd row) = Fin r"
    by auto
  with h1 h2 show ?thesis by (auto simp: list_all_iff)
qed

section \<open>The loop of the transform\<close>

lemma new_col_name_eq_self: "p @ f @ s = f \<longleftrightarrow> p = [] \<and> s = []"
proof
  assume "p @ f @ s = f"
  then have "length (p @ f @ s) = length f" by simp
  then show "p = [] \<and> s = []" by simp
qed simp

lemma length_lookup_values: "length (lookup_values d col) = length col"
  by (simp add: lookup_values_def)

lemma lookup_values_unseen:
  "i < length col \<Longrightarrow> d (col ! i) = None \<Longrightarrow> lookup_values d col ! i = Flt NaN"
  by (simp add: lookup_values_def)

text \<open>One round of the loop, read off a run that returns.\<close>

lemma transofrm_loop_Cons:
  assumes "transofrm_loop enc (g # fs) X = Inr X'"
  shows "\<exists>col d. X g = Some col \<and> transform_woe enc g = Some d \<and> fillna enc = None \<and>
      transofrm_loop enc fs
        (if drop_original enc \<and> prefix enc @ suffix enc \<noteq> []
         then (X(prefix enc @ g @ suffix enc \<mapsto> lookup_values d col))(g := None)
         else X(prefix enc @ g @ suffix enc \<mapsto> lookup_values d col)) = Inr X'"
  using assms
  by (auto simp: Let_def series_map_def split: option.splits sum.splits if_splits)

text \<open>The columns that the loop neither writes nor drops are left as they are.\<close>

lemma transofrm_loop_frame:
  "transofrm_loop enc fs X = Inr X' \<Longrightarrow> c \<notin> set fs \<Longrightarrow>
   c \<notin> (\<lambda>g. prefix enc @ g @ suffix enc) ` set fs \<Longrightarrow> X' c = X c"
proof (induction fs arbitrary: X)
  case Nil
  then show ?case by simp
next
  case (Cons g fs)
  from transofrm_loop_Cons [OF Cons.prems(1)] obtain col d where
    rest: "transofrm_loop enc fs
        (if drop_original enc \<and> prefix enc @ suffix enc \<noteq> []
         then (X(prefix enc @ g @ suffix enc \<mapsto> lookup_values d col))(g := None)
         else X(prefix enc @ g @ suffix enc \<mapsto> lookup_values d col)) = Inr X'"
    by blast
  from Cons.prems(2,3) have c: "c \<notin> set fs" "c \<notin> (\<lambda>g. prefix enc @ g @ suffix enc) ` set fs"
    "c \<noteq> g" "c \<noteq> prefix enc @ g @ suffix enc"
    by auto
  from Cons.IH [OF rest c(1,2)] c(3,4) show ?case by (simp split: if_splits)
qed

text \<open>What the loop writes for a feature when the features are distinct.\<close>

lemma transofrm_loop_new_column:
  assumes "transofrm_loop enc fs X = Inr X'" and "distinct fs"
    and "\<forall>g \<in> set fs. \<forall>h \<in> set fs. prefix enc @ g @ suffix enc = h \<longrightarrow> g = h"
    and "f \<in> set fs"
  shows "\<exists>col d. X f = Some col \<and> transform_woe enc f = Some d \<and>
      X' (prefix enc @ f @ suffix enc) = Some (lookup_values d col)"
  using assms
proof (induction fs arbitrary: X)
  case Nil
  then show ?case by simp
next
  case (Cons g fs)
  let ?new = "\<lambda>g. prefix enc @ g @ suffix enc"
  from transofrm_loop_Cons [OF Cons.prems(1)] obtain col d where
    col: "X g = Some col" and d: "transform_woe enc g = Some d" and
    rest: "transofrm_loop enc fs
        (if drop_original enc \<and> prefix enc @ suffix enc \<noteq> []
         then (X(?new g \<mapsto> lookup_values d col))(g := None)
         else X(?new g \<mapsto> lookup_values d col)) = Inr X'"
    (is "transofrm_loop enc fs ?X2 = Inr X'")
    by blast
  from Cons.prems(2) have dist: "distinct fs" and g: "g \<notin> set fs" by simp_all
  from Cons.prems(3) have inj: "\<forall>a \<in> set fs. \<forall>h \<in> set fs. ?new a = h \<longrightarrow> a = h"
    by simp
  show ?case
  proof (cases "f = g")
    case True
    have n1: "?new g \<notin> set fs"
    proof
      assume "?new g \<in> set fs"
      with Cons.prems(3) have "g = ?new g" by simp
      with \<open>?new g \<in> set fs\<close> g show False by simp
    qed
    have n2: "?new g \<notin> ?new ` set fs" using g by auto
    have x2: "?X2 (?new g) = Some (lookup_values d col)"
      by (auto simp: new_col_name_eq_self)
    from transofrm_loop_frame [OF rest n1 n2] x2 col d True show ?thesis by simp
  next
    case False
    with Cons.prems(4) have f: "f \<in> set fs" by simp
    from Cons.IH [OF rest dist inj f] obtain colf df where
      a: "?X2 f = Some colf" and b: "transform_woe enc f = Some df" and
      c: "X' (?new f) = Some (lookup_values df colf)"
      by blast
    have "?new g \<noteq> f"
    proof
      assume "?new g = f"
      with Cons.prems(3) f have "g = f" by simp
      with False show False by simp
    qed
    with False a have "X f = Some colf" by (simp split: if_splits)
    with b c show ?thesis by blast
  qed
qed

text \<open>
  With a non-empty prefix or suffix a feature's column is never written, so the new
  column holds the lookups of the column of the input table, also when a feature is
  listed twice.
\<close>

lemma transofrm_loop_new_column_named:
  assumes "transofrm_loop enc fs X = Inr X'" and "prefix enc @ suffix enc \<noteq> []"
    and "\<forall>g \<in> set fs. \<forall>h \<in> set fs. prefix enc @ g @ suffix enc = h \<longrightarrow> g = h"
    and "f \<in> set fs"
  shows "\<exists>col d. X f = Some col \<and> transform_woe enc f = Some d \<and>
      X' (prefix enc @ f @ suffix enc) = Some (lookup_values d col)"
  using assms
proof (induction fs arbitrary: X)
  case Nil
  then show ?case by simp
next
  case (Cons g fs)
  let ?new = "\<lambda>g. prefix enc @ g @ suffix enc"
  have self: "?new a \<noteq> a" for a
    using Cons.prems(2) new_col_name_eq_self [of "prefix enc" a "suffix enc"] by auto
  have nocol: "?new a \<noteq> h" if "a \<in> set (g # fs)" and "h \<in> set (g # fs)" for a h
  proof
    assume "?new a = h"
    with Cons.prems(3) that have "a = h" by blast
    with \<open>?new a = h\<close> self [of a] show False by simp
  qed
  from transofrm_loop_Cons [OF Cons.prems(1)] obtain col d where
    col: "X g = Some col" and d: "transform_woe enc g = Some d" and
    rest: "transofrm_loop enc fs
        (if drop_original enc \<and> prefix enc @ suffix enc \<noteq> []
         then (X(?new g \<mapsto> lookup_values d col))(g := None)
         else X(?new g \<mapsto> lookup_values d col)) = Inr X'"
    (is "transofrm_loop enc fs ?X2 = Inr X'")
    by blast
  from Cons.prems(3) have inj: "\<forall>a \<in> set fs. \<forall>h \<in> set fs. ?new a = h \<longrightarrow> a = h"
    by simp
  show ?case
  proof (cases "f \<in> set fs")
    case True
    from Cons.IH [OF rest Cons.prems(2) inj True] obtain colf df where
      a: "?X2 f = Some colf" and b: "transform_woe enc f = Some df" and
      c: "X' (?new f) = Some (lookup_values df colf)"
      by blast
    have "?new g \<noteq> f" using nocol [of g f] True by simp
    with a have "X f = Some colf" by (simp split: if_splits)
    with b c show ?thesis by blast
  next
    case False
    with Cons.prems(4) have fg: "f = g" by simp
    have n1: "?new g \<notin> set fs" using nocol [of g] by auto
    have n2: "?new g \<notin> ?new ` set fs" using False fg by auto
    have x2: "?X2 (?new g) = Some (lookup_values d col)"
      using self [of g] by auto
    from transofrm_loop_frame [OF rest n1 n2] x2 col d fg show ?thesis by simp
  qed
qed

text \<open>
  With an empty prefix and suffix the column of a feature is overwritten in place. Once
  its unseen rows hold NaN they keep it, when NaN is no key of the feature's dict.
\<close>

lemma transofrm_loop_in_place_keeps:
  assumes "transofrm_loop enc fs X = Inr X'" and "prefix enc = []" and "suffix enc = []"
    and "transform_woe enc f = Some d" and "d (Flt NaN) = None"
    and "X f = Some c" and "length c = length col"
    and "\<forall>i < length col. d (col ! i) = None \<longrightarrow> c ! i = Flt NaN"
  shows "\<exists>c'. X' f = Some c' \<and> length c' = length col \<and>
      (\<forall>i < length col. d (col ! i) = None \<longrightarrow> c' ! i = Flt NaN)"
  using assms
proof (induction fs arbitrary: X c)
  case Nil
  then show ?case by simp
next
  case (Cons g fs)
  from transofrm_loop_Cons [OF Cons.prems(1)] Cons.prems(2,3) obtain colg dg where
    colg: "X g = Some colg" and dg: "transform_woe enc g = Some dg" and
    rest: "transofrm_loop enc fs (X(g \<mapsto> lookup_values dg colg)) = Inr X'"
    by auto
  show ?case
  proof (cases "g = f")
    case True
    with colg dg Cons.prems(4,6) have eq: "colg = c" "dg = d" by simp_all
    have x2: "(X(g \<mapsto> lookup_values dg colg)) f = Some (lookup_values d c)"
      using True eq by simp
    have len: "length (lookup_values d c) = length col"
      using Cons.prems(7) by (simp add: length_lookup_values)
    have nan: "\<forall>i < length col. d (col ! i) = None \<longrightarrow> lookup_values d c ! i = Flt NaN"
      using Cons.prems(5,7,8) by (simp add: lookup_values_def)
    from Cons.IH [OF rest Cons.prems(2,3,4,5) x2 len nan] show ?thesis .
  next
    case False
    then have x2: "(X(g \<mapsto> lookup_values dg colg)) f = Some c"
      using Cons.prems(6) by simp
    from Cons.IH [OF rest Cons.prems(2,3,4,5) x2 Cons.prems(7,8)] show ?thesis .
  qed
qed

lemma transofrm_loop_in_place:
  assumes "transofrm_loop enc fs X = Inr X'" and "prefix enc = []" and "suffix enc = []"
    and "transform_woe enc f = Some d" and "d (Flt NaN) = None" and "f \<in> set fs"
  shows "\<exists>col c'. X f = Some col \<and> X' f = Some c' \<and> length c' = length col \<and>
      (\<forall>i < length col. d (col ! i) = None \<longrightarrow> c' ! i = Flt NaN)"
  using assms
proof (induction fs arbitrary: X)
  case Nil
  then show ?case by simp
next
  case (Cons g fs)
  from transofrm_loop_Cons [OF Cons.prems(1)] Cons.prems(2,3) obtain colg dg where
    colg: "X g = Some colg" and dg: "transform_woe enc g = Some dg" and
    rest: "transofrm_loop enc fs (X(g \<mapsto> lookup_values dg colg)) = Inr X'"
    by auto
  show ?case
  proof (cases "g = f")
    case True
    with dg Cons.prems(4) have eq: "dg = d" by simp
    have x2: "(X(g \<mapsto> lookup_values dg colg)) f = Some (lookup_values d colg)"
      using True eq by simp
    have nan: "\<forall>i < length colg. d (colg ! i) = None \<longrightarrow> lookup_values d colg ! i = Flt NaN"
      by (simp add: lookup_values_def)
    from transofrm_loop_in_place_keeps [OF rest Cons.prems(2,3,4,5) x2 length_lookup_values nan]
      colg True
    show ?thesis by simp
  next
    case False
    with Cons.prems(6) have f: "f \<in> set fs" by simp
    from Cons.IH [OF rest Cons.prems(2,3,4,5) f] False show ?thesis by simp
  qed
qed

text \<open>The loop succeeds when no fill value is set, the features are distinct and each has its column and its dict.\<close>

lemma transofrm_loop_succeeds:
  assumes "fillna enc = None" and "distinct fs"
    and "\<forall>g \<in> set fs. X g \<noteq> None \<and> transform_woe enc g \<noteq> None"
  shows "\<exists>X'. transofrm_loop enc fs X = Inr X'"
  using assms
proof (induction fs arbitrary: X)
  case Nil
  then show ?case by simp
next
  case (Cons g fs)
  from Cons.prems(3) obtain col d where
    col: "X g = Some col" and d: "transform_woe enc g = Some d" by auto
  let ?X2 = "if drop_original enc \<and> prefix enc @ suffix enc \<noteq> []
         then (X(prefix enc @ g @ suffix enc \<mapsto> lookup_values d col))(g := None)
         else X(prefix enc @ g @ suffix enc \<mapsto> lookup_values d col)"
  from Cons.prems have "distinct fs" and "g \<notin> set fs"
    and "\<forall>h \<in> set fs. ?X2 h \<noteq> None \<and> transform_woe enc h \<noteq> None"
    by auto
  from Cons.IH [OF Cons.prems(1) this(1,3)] col d Cons.prems(1)
  show ?case by (simp add: Let_def series_map_def)
qed

text \<open>NaN is no key of a fitted dict: the counts drop the missing cells.\<close>

lemma calc_perc_no_nan_key:
  assumes "calc_perc x y = Inr (p_event, p_non_event)"
  shows "map_of p_event (Flt NaN) = None" and "map_of p_non_event (Flt NaN) = None"
proof -
  note facts = calc_perc_Inr [OF assms]
  have "Flt NaN \<notin> set (group_values (zip x y) k)" for k
    by (simp add: group_values_def isna_def)
  with facts(1,2,3,4,5) show "map_of p_event (Flt NaN) = None"
    and "map_of p_non_event (Flt NaN) = None"
    by (simp_all add: proportion_value)
qed

lemma fit_woe_no_nan_key:
  assumes "fit enc0 X0 y = (enc, None)" and "f \<in> set (feats enc0)"
  shows "\<exists>d. transform_woe enc f = Some d \<and> d (Flt NaN) = None"
proof -
  from fit_stored [OF assms] obtain x p_event p_non_event where
    cp: "calc_perc x y = Inr (p_event, p_non_event)" and
    w: "transform_woe enc f = Some (to_dict (woe_of p_event p_non_event))"
    by blast
  from woe_of_absent [OF calc_perc_no_nan_key [OF cp]] w show ?thesis
    by (simp add: to_dict_def)
qed

section \<open>The transformed table\<close>

lemma example_woe:
  "woe_of [(Cat ''A'', Fin 1)] [(Cat ''A'', Fin (1 / 3)), (Cat ''B'', Fin (2 / 3))] =
     [(Cat ''B'', Fin 0), (Cat ''A'', Fin (ln ((1 / 3) / 1)))]"
  by (simp add: woe_of_def align_op_def series_fillna_def series_log_def)

lemma example_fit_woe:
  "transform_woe (fst (fit (init [''city''] d fna p s) example_X example_y)) ''city'' =
     Some (to_dict [(Cat ''B'', Fin 0), (Cat ''A'', Fin (ln ((1 / 3) / 1)))])"
proof -
  have "''city'' \<in> set (feats (init [''city''] d fna p s :: string encoder))"
    by (simp add: init_def)
  from fit_stored [OF example_fit_eq this] example_calc_perc show ?thesis
    by (auto simp: example_X_def example_woe)
qed

lemma example_fit_config:
  "feats (fst (fit (init [''city''] d fna p s) example_X example_y)) = [''city'']"
  "drop_original (fst (fit (init [''city''] d fna p s) example_X example_y)) = d"
  "fillna (fst (fit (init [''city''] d fna p s) example_X example_y)) = fna"
  "prefix (fst (fit (init [''city''] d fna p s) example_X example_y)) = p"
  "suffix (fst (fit (init [''city''] d fna p s) example_X example_y)) = s"
  "is_fitted (fst (fit (init [''city''] d fna p s) example_X example_y))"
  using fit_fields [OF example_fit_eq, of d fna p s] by (simp_all add: init_def)

lemma transofrm_single:
  assumes "feats enc = [f]" and "is_fitted enc" and "transform_woe enc f = Some d"
    and "X f = Some col"
  shows "transofrm enc X =
     (case fillna enc of
        Some v \<Rightarrow> Inl ValueError
      | None \<Rightarrow>
          Inr (if drop_original enc \<and> prefix enc @ suffix enc \<noteq> []
               then (X(prefix enc @ f @ suffix enc \<mapsto> lookup_values d col))(f := None)
               else X(prefix enc @ f @ suffix enc \<mapsto> lookup_values d col)))"
  using assms by (auto simp: transofrm_def Let_def series_map_def split: option.splits)

lemma example_lookup_values:
  "lookup_values (to_dict [(Cat ''B'', Fin 0), (Cat ''A'', w)]) example_city =
     [Flt w, Flt w, Flt w, Flt (Fin 0), Flt (Fin 0)]"
  "lookup_values (to_dict [(Cat ''B'', Fin 0), (Cat ''A'', w)]) [Cat ''A'', Cat ''C''] =
     [Flt w, Flt NaN]"
  "lookup_values (to_dict [(Cat ''B'', Fin 0), (Cat ''A'', Fin r)]) [Flt (Fin r'), Flt NaN] =
     [Flt NaN, Flt NaN]"
  by (simp_all add: lookup_values_def to_dict_def example_city_def)

text \<open>
  Claim C6, as stated: with \<open>drop_original\<close> set and an empty prefix and suffix the
  transform raises InvalidDropConfigurationError. On the example, which has no fill
  value, it raises nothing: it returns the table with the column \<open>city\<close> overwritten by
  the weights of evidence.
\<close>
theorem transofrm_drop_empty_names_counterexample:
  "drop_original (fst (fit example_encoder_in_place example_X example_y)) \<and>
   prefix (fst (fit example_encoder_in_place example_X example_y)) @
     suffix (fst (fit example_encoder_in_place example_X example_y)) = [] \<and>
   transofrm (fst (fit example_encoder_in_place example_X example_y)) example_X =
     Inr (example_X(''city'' \<mapsto>
       [Flt (Fin (ln ((1 / 3) / 1))), Flt (Fin (ln ((1 / 3) / 1))), Flt (Fin (ln ((1 / 3) / 1))),
        Flt (Fin 0), Flt (Fin 0)]))"
proof -
  let ?E = "fst (fit example_encoder_in_place example_X example_y)"
  have cfg: "feats ?E = [''city'']" "is_fitted ?E" "drop_original ?E"
    "prefix ?E = []" "suffix ?E = []" "fillna ?E = None"
    unfolding example_encoder_in_place_def by (simp_all add: example_fit_config)
  have woe: "transform_woe ?E ''city'' = Some (to_dict [(Cat ''B'', Fin 0), (Cat ''A'', Fin (ln ((1 / 3) / 1)))])"
    unfolding example_encoder_in_place_def by (rule example_fit_woe)
  have col: "example_X ''city'' = Some example_city" by (simp add: example_X_def)
  from transofrm_single [where X = example_X, OF cfg(1,2) woe col] cfg(3,4,5,6)
  show ?thesis by (simp add: example_lookup_values)
qed

text \<open>
  Claim C6, amended. For a fitted encoder without a fill value, with \<open>drop_original\<close> set
  and an empty prefix and suffix, distinct features and a table that holds every
  feature's column, the transform raises no error: it overwrites each feature's column
  in place with its weights of evidence, skips the drop (the column is still there), and
  leaves every other column as it was.
\<close>
theorem transofrm_drop_empty_names:
  assumes "fit enc0 X0 y = (enc, None)" and "fillna enc = None"
    and "drop_original enc" and "prefix enc @ suffix enc = []"
    and "distinct (feats enc)" and "\<forall>f \<in> set (feats enc). X f \<noteq> None"
  shows "\<exists>X'. transofrm enc X = Inr X' \<and>
      (\<forall>f \<in> set (feats enc). \<exists>col d. X f = Some col \<and> transform_woe enc f = Some d \<and>
          X' f = Some (lookup_values d col)) \<and>
      (\<forall>c. c \<notin> set (feats enc) \<longrightarrow> X' c = X c)"
proof -
  have fitted: "is_fitted enc" and fs: "feats enc = feats enc0"
    using fit_fields [OF assms(1)] by simp_all
  have woe: "\<forall>g \<in> set (feats enc). X g \<noteq> None \<and> transform_woe enc g \<noteq> None"
  proof
    fix g assume g: "g \<in> set (feats enc)"
    with fs have "g \<in> set (feats enc0)" by simp
    from fit_stored [OF assms(1) this] assms(6) g
    show "X g \<noteq> None \<and> transform_woe enc g \<noteq> None" by auto
  qed
  from transofrm_loop_succeeds [OF assms(2,5) woe] obtain X' where
    loop: "transofrm_loop enc (feats enc) X = Inr X'" by blast
  from assms(4) have empty: "prefix enc = []" "suffix enc = []" by simp_all
  have a: "transofrm enc X = Inr X'" using fitted loop by (simp add: transofrm_def)
  have b: "\<forall>f \<in> set (feats enc). \<exists>col d. X f = Some col \<and> transform_woe enc f = Some d \<and>
          X' f = Some (lookup_values d col)"
  proof
    fix f assume f: "f \<in> set (feats enc)"
    have inj: "\<forall>g \<in> set (feats enc). \<forall>h \<in> set (feats enc). prefix enc @ g @ suffix enc = h \<longrightarrow> g = h"
      using empty by simp
    from transofrm_loop_new_column [OF loop assms(5) inj f] empty
    show "\<exists>col d. X f = Some col \<and> transform_woe enc f = Some d \<and>
          X' f = Some (lookup_values d col)" by simp
  qed
  have c: "\<forall>c. c \<notin> set (feats enc) \<longrightarrow> X' c = X c"
  proof (intro allI impI)
    fix c assume c: "c \<notin> set (feats enc)"
    then have "c \<notin> (\<lambda>g. prefix enc @ g @ suffix enc) ` set (feats enc)"
      using empty by simp
    from transofrm_loop_frame [OF loop c this] show "X' c = X c" .
  qed
  show ?thesis by (rule exI [of _ X']) (rule conjI [OF a conjI [OF b c]])
qed

theorem transofrm_drop_empty_names_witness:
  "fit example_encoder_in_place example_X example_y =
     (fst (fit example_encoder_in_place example_X example_y), None) \<and>
   fillna (fst (fit example_encoder_in_place example_X example_y)) = None \<and>
   drop_original (fst (fit example_encoder_in_place example_X example_y)) \<and>
   prefix (fst (fit example_encoder_in_place example_X example_y)) @
     suffix (fst (fit example_encoder_in_place example_X example_y)) = [] \<and>
   distinct (feats (fst (fit example_encoder_in_place example_X example_y))) \<and>
   list_all (\<lambda>f. example_X f \<noteq> None) (feats (fst (fit example_encoder_in_place example_X example_y))) \<and>
   (\<exists>X'. transofrm (fst (fit example_encoder_in_place example_X example_y)) example_X = Inr X' \<and>
      X' ''city'' \<noteq> None \<and> X' ''other'' = None)"
proof -
  let ?E = "fst (fit example_encoder_in_place example_X example_y)"
  have h1: "fit example_encoder_in_place example_X example_y = (?E, None)"
    unfolding example_encoder_in_place_def by (rule example_fit_eq)
  have h0: "fillna ?E = None" and h2: "drop_original ?E" and h3: "prefix ?E @ suffix ?E = []"
    and h4: "distinct (feats ?E)" and fs: "feats ?E = [''city'']"
    unfolding example_encoder_in_place_def by (simp_all add: example_fit_config)
  have h5: "\<forall>f \<in> set (feats ?E). example_X f \<noteq> None"
    using fs by (simp add: example_X_def)
  from transofrm_drop_empty_names [OF h1 h0 h2 h3 h4 h5] fs
  obtain X' where "transofrm ?E example_X = Inr X'" and "X' ''city'' \<noteq> None"
    and "X' ''other'' = example_X ''other''"
    by auto
  then have "\<exists>X'. transofrm ?E example_X = Inr X' \<and> X' ''city'' \<noteq> None \<and> X' ''other'' = None"
    by (auto simp: example_X_def)
  with h1 h0 h2 h3 h4 h5 show ?thesis by (simp add: list_all_iff)
qed

lemma example_collision_fit_eq:
  "fit example_encoder_collision example_X_collision example_y =
     (fst (fit example_encoder_collision example_X_collision example_y), None)"
proof -
  let ?enc = "example_encoder_collision"
  have f: "feats ?enc = [''a'', ''woe_a'']"
    by (simp add: example_encoder_collision_def init_def)
  obtain enc1 r where l: "fit_loop [''a'', ''woe_a''] example_X_collision example_y ?enc = (enc1, r)"
    by (cases "fit_loop [''a'', ''woe_a''] example_X_collision example_y ?enc")
  have "snd (fit_loop [''a'', ''woe_a''] example_X_collision example_y ?enc) = None"
    by (simp add: example_X_collision_def example_calc_perc)
  with l have r: "r = None" by simp
  have "snd (fit ?enc example_X_collision example_y) = None"
    unfolding fit_def f l r by simp
  then show ?thesis by (simp add: prod_eq_iff)
qed

lemma example_collision_config:
  "feats (fst (fit example_encoder_collision example_X_collision example_y)) = [''a'', ''woe_a'']"
  "drop_original (fst (fit example_encoder_collision example_X_collision example_y))"
  "fillna (fst (fit example_encoder_collision example_X_collision example_y)) = None"
  "prefix (fst (fit example_encoder_collision example_X_collision example_y)) = ''woe_''"
  "suffix (fst (fit example_encoder_collision example_X_collision example_y)) = []"
  "is_fitted (fst (fit example_encoder_collision example_X_collision example_y))"
  using fit_fields [OF example_collision_fit_eq]
  by (simp_all add: example_encoder_collision_def init_def)

lemma example_collision_woe:
  "transform_woe (fst (fit example_encoder_collision example_X_collision example_y)) ''a'' =
     Some (to_dict [(Cat ''B'', Fin 0), (Cat ''A'', Fin (ln ((1 / 3) / 1)))])"
  "transform_woe (fst (fit example_encoder_collision example_X_collision example_y)) ''woe_a'' =
     Some (to_dict [(Cat ''B'', Fin 0), (Cat ''A'', Fin (ln ((1 / 3) / 1)))])"
proof -
  have a: "''a'' \<in> set (feats example_encoder_collision)"
    and w: "''woe_a'' \<in> set (feats example_encoder_collision)"
    by (simp_all add: example_encoder_collision_def init_def)
  from fit_stored [OF example_collision_fit_eq a] example_calc_perc
  show "transform_woe (fst (fit example_encoder_collision example_X_collision example_y)) ''a'' =
     Some (to_dict [(Cat ''B'', Fin 0), (Cat ''A'', Fin (ln ((1 / 3) / 1)))])"
    by (auto simp: example_X_collision_def example_woe)
  from fit_stored [OF example_collision_fit_eq w] example_calc_perc
  show "transform_woe (fst (fit example_encoder_collision example_X_collision example_y)) ''woe_a'' =
     Some (to_dict [(Cat ''B'', Fin 0), (Cat ''A'', Fin (ln ((1 / 3) / 1)))])"
    by (auto simp: example_X_collision_def example_woe)
qed

text \<open>
  Claim C10, as stated: for every fitted encoder and every table a row with an unseen
  category holds NaN in the new column, whatever the \<open>fillna\<close> setting. With the fill
  value 0 the transform of a table with an unseen category raises ValueError and returns
  no column. And when the name of a feature's new column is the name of a later feature,
  the later round maps and drops that column: of the features \<open>a\<close> and \<open>woe_a\<close> only
  the column \<open>woe_woe_a\<close> is left.
\<close>
theorem transofrm_unseen_category_counterexample:
  "fillna (fst (fit example_encoder_fill0 example_X example_y)) = Some (Fin 0) \<and>
   transofrm (fst (fit example_encoder_fill0 example_X example_y)) example_X_unseen = Inl ValueError \<and>
   feats (fst (fit example_encoder_collision example_X_collision example_y)) = [''a'', ''woe_a''] \<and>
   prefix (fst (fit example_encoder_collision example_X_collision example_y)) @ ''a'' @
     suffix (fst (fit example_encoder_collision example_X_collision example_y)) = ''woe_a'' \<and>
   transofrm (fst (fit example_encoder_collision example_X_collision example_y))
     example_X_collision_unseen = Inr [''woe_woe_a'' \<mapsto> [Flt NaN, Flt NaN]]"
proof -
  let ?E = "fst (fit example_encoder_fill0 example_X example_y)"
  let ?C = "fst (fit example_encoder_collision example_X_collision example_y)"
  have cfg: "feats ?E = [''city'']" "is_fitted ?E" "fillna ?E = Some (Fin 0)"
    unfolding example_encoder_fill0_def by (simp_all add: example_fit_config)
  have woe: "transform_woe ?E ''city'' = Some (to_dict [(Cat ''B'', Fin 0), (Cat ''A'', Fin (ln ((1 / 3) / 1)))])"
    unfolding example_encoder_fill0_def by (rule example_fit_woe)
  have col: "example_X_unseen ''city'' = Some [Cat ''A'', Cat ''C'']"
    by (simp add: example_X_unseen_def)
  have a: "transofrm ?E example_X_unseen = Inl ValueError"
    using transofrm_single [where X = example_X_unseen, OF cfg(1,2) woe col] cfg(3) by simp
  have b: "prefix ?C @ ''a'' @ suffix ?C = ''woe_a''"
    by (simp add: example_collision_config)
  have c: "transofrm ?C example_X_collision_unseen = Inr [''woe_woe_a'' \<mapsto> [Flt NaN, Flt NaN]]"
    by (simp add: transofrm_def example_collision_config example_collision_woe Let_def
        series_map_def example_X_collision_unseen_def example_lookup_values fun_eq_iff)
  from cfg(3) a example_collision_config(1) b c show ?thesis by simp
qed

text \<open>
  Claim C10, amended. When the transform of a fitted encoder returns, and no feature's new
  column name is the name of another feature, the new column of every feature has one row
  for each row of the feature's column in the input table, and a row whose category has no
  entry in the fitted dict of weights of evidence holds NaN: no value is substituted for
  an unseen category.
\<close>
theorem transofrm_unseen_category_nan:
  assumes "fit enc0 X0 y = (enc, None)" and "transofrm enc X = Inr X'"
    and "\<forall>g \<in> set (feats enc). \<forall>h \<in> set (feats enc). prefix enc @ g @ suffix enc = h \<longrightarrow> g = h"
    and "f \<in> set (feats enc)"
  shows "\<exists>col d new_col. X f = Some col \<and> transform_woe enc f = Some d \<and>
      X' (prefix enc @ f @ suffix enc) = Some new_col \<and> length new_col = length col \<and>
      (\<forall>i < length col. d (col ! i) = None \<longrightarrow> new_col ! i = Flt NaN)"
proof -
  from assms(2) have loop: "transofrm_loop enc (feats enc) X = Inr X'"
    by (simp add: transofrm_def split: if_splits)
  show ?thesis
  proof (cases "prefix enc @ suffix enc = []")
    case True
    then have empty: "prefix enc = []" "suffix enc = []" by simp_all
    from fit_fields(1) [OF assms(1)] assms(4) have "f \<in> set (feats enc0)" by simp
    from fit_woe_no_nan_key [OF assms(1) this] obtain d where
      d: "transform_woe enc f = Some d" and nan: "d (Flt NaN) = None" by blast
    from transofrm_loop_in_place [OF loop empty d nan assms(4)] d empty
    show ?thesis by auto
  next
    case False
    from transofrm_loop_new_column_named [OF loop False assms(3,4)] obtain col d where
      col: "X f = Some col" and d: "transform_woe enc f = Some d" and
      new: "X' (prefix enc @ f @ suffix enc) = Some (lookup_values d col)"
      by blast
    have "\<forall>i < length col. d (col ! i) = None \<longrightarrow> lookup_values d col ! i = Flt NaN"
      by (simp add: lookup_values_unseen)
    with col d new length_lookup_values [of d col] show ?thesis by blast
  qed
qed

theorem transofrm_unseen_category_nan_witness:
  "fit example_encoder example_X example_y = (fst (fit example_encoder example_X example_y), None) \<and>
   transofrm (fst (fit example_encoder example_X example_y)) example_X_unseen =
     Inr (example_X_unseen(''woe_city'' \<mapsto> [Flt (Fin (ln ((1 / 3) / 1))), Flt NaN])) \<and>
   feats (fst (fit example_encoder example_X example_y)) = [''city''] \<and>
   prefix (fst (fit example_encoder example_X example_y)) @ ''city'' @
     suffix (fst (fit example_encoder example_X example_y)) = ''woe_city'' \<and>
   example_X_unseen ''city'' = Some [Cat ''A'', Cat ''C''] \<and>
   (\<exists>d new_col. transform_woe (fst (fit example_encoder example_X example_y)) ''city'' = Some d \<and>
      d (Cat ''C'') = None \<and>
      (example_X_unseen(''woe_city'' \<mapsto> [Flt (Fin (ln ((1 / 3) / 1))), Flt NaN])) ''woe_city'' = Some new_col \<and>
      length new_col = 2 \<and> new_col ! 1 = Flt NaN)"
proof -
  let ?E = "fst (fit example_encoder example_X example_y)"
  let ?R = "example_X_unseen(''woe_city'' \<mapsto> [Flt (Fin (ln ((1 / 3) / 1))), Flt NaN])"
  have h1: "fit example_encoder example_X example_y = (?E, None)"
    unfolding example_encoder_def by (rule example_fit_eq)
  have cfg: "feats ?E = [''city'']" "prefix ?E = ''woe_''" "suffix ?E = []"
    "fillna ?E = None" "is_fitted ?E" "\<not> drop_original ?E"
    unfolding example_encoder_def by (simp_all add: example_fit_config)
  have woe: "transform_woe ?E ''city'' = Some (to_dict [(Cat ''B'', Fin 0), (Cat ''A'', Fin (ln ((1 / 3) / 1)))])"
    unfolding example_encoder_def by (rule example_fit_woe)
  have col: "example_X_unseen ''city'' = Some [Cat ''A'', Cat ''C'']"
    by (simp add: example_X_unseen_def)
  have h2: "transofrm ?E example_X_unseen = Inr ?R"
    using transofrm_single [where X = example_X_unseen, OF cfg(1,5) woe col] cfg(2,3,4,6)
    by (simp add: example_lookup_values)
  have h3: "\<forall>g \<in> set (feats ?E). \<forall>h \<in> set (feats ?E). prefix ?E @ g @ suffix ?E = h \<longrightarrow> g = h"
    using cfg by simp
  have h4: "''city'' \<in> set (feats ?E)" using cfg by simp
  have name: "prefix ?E @ ''city'' @ suffix ?E = ''woe_city''" using cfg by simp
  from transofrm_unseen_category_nan [OF h1 h2 h3 h4] obtain c d new_col where
    c: "example_X_unseen ''city'' = Some c" and d: "transform_woe ?E ''city'' = Some d" and
    new: "?R (prefix ?E @ ''city'' @ suffix ?E) = Some new_col" and
    len: "length new_col = length c" and
    nan: "\<forall>i < length c. d (c ! i) = None \<longrightarrow> new_col ! i = Flt NaN"
    by blast
  from c col have ceq: "c = [Cat ''A'', Cat ''C'']" by simp
  from d woe have unseen: "d (Cat ''C'') = None" by (auto simp: to_dict_def)
  from nan ceq unseen have "new_col ! 1 = Flt NaN" by simp
  with d unseen new len ceq name
  have "\<exists>d new_col. transform_woe ?E ''city'' = Some d \<and> d (Cat ''C'') = None \<and>
      ?R ''woe_city'' = Some new_col \<and> length new_col = 2 \<and> new_col ! 1 = Flt NaN"
    by auto
  with h1 h2 cfg(1) name col show ?thesis by blast
qed

end
